theory Spec2Isabelle
  imports Main "HOL-Library.Word"
begin

section \<open>Strings of the page and of the share route\<close>

text \<open>
  A JavaScript string is modelled as a \<^typ>\<open>string\<close>. The literals of the source that are
  written in Chinese are kept as the bytes of their UTF-8 encoding; the name of each
  constant is the English gloss of the literal.
\<close>

definition STATUS_UNKNOWN :: string where
  \<comment> \<open>the literal of \<open>currentVersion: "..."\<close> for a version nobody looked up yet\<close>
  "STATUS_UNKNOWN = [CHR 0xE6, CHR 0x9C, CHR 0xAA, CHR 0xE7, CHR 0x9F, CHR 0xA5]"

definition STATUS_PENDING :: string where
  "STATUS_PENDING =
     [CHR 0xE5, CHR 0xBE, CHR 0x85, CHR 0xE8, CHR 0xA7, CHR 0xA3, CHR 0xE6, CHR 0x9E, CHR 0x90]"

definition STATUS_RESOLVABLE :: string where
  "STATUS_RESOLVABLE =
     [CHR 0xE5, CHR 0x8F, CHR 0xAF, CHR 0xE6, CHR 0x9B, CHR 0xB4, CHR 0xE6, CHR 0x96, CHR 0xB0]"

definition STATUS_MISSING :: string where
  "STATUS_MISSING = [CHR 0xE7, CHR 0xBC, CHR 0xBA, CHR 0xE5, CHR 0xA4, CHR 0xB1]"

definition STATUS_CUSTOM :: string where
  "STATUS_CUSTOM = [CHR 0xE8, CHR 0x87, CHR 0xAA, CHR 0xE8, CHR 0xA8, CHR 0x82]"

definition STATUS_PAUSED :: string where
  "STATUS_PAUSED = [CHR 0xE6, CHR 0x9A, CHR 0xAB, CHR 0xE5, CHR 0x81, CHR 0x9C]"

definition VERSION_MISSING_SUFFIX :: string where
  \<comment> \<open>the text after \<open>${item.title}\<close> in the template literal of \<open>handleDownloadSelected\<close>\<close>
  "VERSION_MISSING_SUFFIX =
     [CHR 0x28, CHR 0xE8, CHR 0xA9, CHR 0xB2, CHR 0xE7, CHR 0x89, CHR 0x88, CHR 0xE6, CHR 0x9C,
      CHR 0xAC, CHR 0xE7, CHR 0xBC, CHR 0xBA, CHR 0xE5, CHR 0xA4, CHR 0xB1, CHR 0x29]"

definition upper_char :: "char \<Rightarrow> char" where
  "upper_char c =
     (let n = (of_char c :: nat) in if 97 \<le> n \<and> n \<le> 122 then char_of (n - 32) else c)"

definition lower_char :: "char \<Rightarrow> char" where
  "lower_char c =
     (let n = (of_char c :: nat) in if 65 \<le> n \<and> n \<le> 90 then char_of (n + 32) else c)"

definition toUpperCase :: "string \<Rightarrow> string" where
  \<comment> \<open>\<open>String.prototype.toUpperCase\<close> on the ASCII letters; other bytes stay\<close>
  "toUpperCase s = map upper_char s"

definition toLowerCase :: "string \<Rightarrow> string" where
  "toLowerCase s = map lower_char s"

definition toLoaderId :: "string \<Rightarrow> string" where
  "toLoaderId label =
     (let lower = toLowerCase label in if lower = ''neoforge'' then ''neoforge'' else lower)"

fun dedupe_from :: "string list \<Rightarrow> string list \<Rightarrow> string list" where
  "dedupe_from seen [] = []"
| "dedupe_from seen (x # xs) =
     (if x \<in> set seen then dedupe_from seen xs else x # dedupe_from (seen @ [x]) xs)"

definition dedupe :: "string list \<Rightarrow> string list" where
  \<comment> \<open>\<open>Array.from(new Set(list))\<close>: the first occurrence of each string, in order\<close>
  "dedupe list = dedupe_from [] list"

section \<open>The bounded concurrency runner\<close>

text \<open>
  \<open>runPool\<close> starts \<open>limit\<close> runners over one shared queue of \<open>{value, index}\<close> pairs. Each
  runner runs synchronously up to its first \<open>await\<close>, so runner \<open>k\<close> shifts the \<open>k\<close>-th pair
  off the queue and waits for its worker; runners that find the queue empty return at once.
  From then on the only events are completions of workers in flight, in an order the
  program does not control. That order is the parameter \<open>sched\<close>: at each event its head,
  modulo the number of workers in flight, picks the one that completes (an exhausted
  schedule picks the first). On completion the runner stores the result at the index of its
  pair and, in the same synchronous stretch, shifts the next pair or returns. A worker that
  rejects makes its runner reject, and \<open>Promise.all\<close> rejects with the first such error.

  \<open>results\<close> is \<open>new Array(list.length)\<close>: a slot never written is a hole, \<open>None\<close>. The
  second component of a run is a ghost log, not in the source: the indices handed to the
  worker, in the order of the calls.
\<close>

fun remove_nth :: "nat \<Rightarrow> 'a list \<Rightarrow> 'a list" where
  "remove_nth j xs = take j xs @ drop (Suc j) xs"

fun pick :: "nat list \<Rightarrow> nat \<Rightarrow> nat" where
  "pick [] n = 0"
| "pick (c # cs) n = c mod n"

function runPool_events ::
  "('a \<Rightarrow> 'e + 'a) \<Rightarrow> nat list \<Rightarrow> ('a \<times> nat) list \<Rightarrow> ('a \<times> nat) list \<Rightarrow>
   'a option list \<Rightarrow> nat list \<Rightarrow> 'e + ('a option list \<times> nat list)" where
  "runPool_events worker sched queue [] results calls = Inr (results, calls)"
| "runPool_events worker sched queue (r # rs) results calls =
     (let j = pick sched (length (r # rs)) in
      case worker (fst ((r # rs) ! j)) of
        Inl e \<Rightarrow> Inl e
      | Inr resolved \<Rightarrow>
          (case queue of
             [] \<Rightarrow>
               runPool_events worker (tl sched) [] (remove_nth j (r # rs))
                 (results[snd ((r # rs) ! j) := Some resolved]) calls
           | next # queue' \<Rightarrow>
               runPool_events worker (tl sched) queue' ((r # rs)[j := next])
                 (results[snd ((r # rs) ! j) := Some resolved]) (calls @ [snd next])))"
  by pat_completeness auto
termination
proof (relation "measure (\<lambda>(worker, sched, queue, inflight, results, calls).
    length queue + length inflight)")
  show "wf (measure (\<lambda>(worker, sched, queue, inflight, results, calls).
    length queue + length inflight))"
    by simp
next
  fix worker :: "'a \<Rightarrow> 'e + 'a" and sched :: "nat list" and queue :: "('a \<times> nat) list"
    and r :: "'a \<times> nat" and rs :: "('a \<times> nat) list" and results :: "'a option list"
    and calls :: "nat list" and j :: nat and resolved :: 'a
  assume j: "j = pick sched (length (r # rs))" and "queue = []"
  have "j < length (r # rs)"
    unfolding j by (cases sched) simp_all
  then show "((worker, tl sched, [], remove_nth j (r # rs),
      results[snd ((r # rs) ! j) := Some resolved], calls),
     (worker, sched, queue, r # rs, results, calls))
    \<in> measure (\<lambda>(worker, sched, queue, inflight, results, calls).
        length queue + length inflight)"
    by (simp add: min_def)
next
  fix worker :: "'a \<Rightarrow> 'e + 'a" and sched :: "nat list" and queue :: "('a \<times> nat) list"
    and r :: "'a \<times> nat" and rs :: "('a \<times> nat) list" and results :: "'a option list"
    and calls :: "nat list" and j :: nat and resolved :: 'a and nxt :: "'a \<times> nat"
    and queue' :: "('a \<times> nat) list"
  assume "queue = nxt # queue'"
  then show "((worker, tl sched, queue', (r # rs)[j := nxt],
      results[snd ((r # rs) ! j) := Some resolved], calls @ [snd nxt]),
     (worker, sched, queue, r # rs, results, calls))
    \<in> measure (\<lambda>(worker, sched, queue, inflight, results, calls).
        length queue + length inflight)"
    by (simp split: nat.split)
qed

definition runPool_run ::
  "'a list \<Rightarrow> nat \<Rightarrow> ('a \<Rightarrow> 'e + 'a) \<Rightarrow> nat list \<Rightarrow> 'e + ('a option list \<times> nat list)" where
  "runPool_run list limit worker sched =
     (let queue = zip list [0..<length list] in
      runPool_events worker sched (drop limit queue) (take limit queue)
        (replicate (length list) None) (map snd (take limit queue)))"

definition runPool ::
  "'a list \<Rightarrow> nat \<Rightarrow> ('a \<Rightarrow> 'e + 'a) \<Rightarrow> nat list \<Rightarrow> 'e + 'a option list" where
  "runPool list limit worker sched = map_sum (\<lambda>e. e) fst (runPool_run list limit worker sched)"

section \<open>The list entries and the registry\<close>

text \<open>
  \<open>CartItem\<close> is the type of the same name in \<open>page.tsx\<close>; a field declared with \<open>?\<close> is an
  option. The field \<open>id\<close> is written \<open>item_id\<close> and \<open>note\<close> is written \<open>item_note\<close>, the plain
  names being taken in Isabelle.
\<close>

datatype StatusTone = success | accent | warning | danger

record DependencyItem =
  dep_id :: string
  dep_title :: string
  dep_iconUrl :: "string option"

record CartItem =
  item_id :: string
  title :: string
  source :: string
  currentVersion :: string
  targetVersion :: string
  status :: string
  statusTone :: StatusTone
  paused :: bool
  lastSupportedVersion :: "string option"
  downloaded :: "bool option"
  filename :: "string option"
  iconUrl :: "string option"
  dependencies :: "DependencyItem list option"
  isDependency :: "bool option"
  isSelected :: "bool option"
  item_note :: "string option"
  isCustom :: "bool option"
  customUrl :: "string option"

record ProjectInfo =
  project_title :: "string option"
  project_game_versions :: "string list option"
  icon_url :: "string option"

record VersionFile =
  url :: string
  primary :: "bool option"
  file_filename :: "string option"

record VersionDependency =
  project_id :: "string option"
  dependency_type :: "string option"

record VersionInfo =
  version_id :: string
  game_versions :: "string list option"
  date_published :: "string option"
  files :: "VersionFile list option"
  version_dependencies :: "VersionDependency list option"

text \<open>
  What one \<open>fetch\<close> of the page gives: the promise rejects (or the body is not JSON, which
  throws at \<open>response.json()\<close>), the response is not \<open>ok\<close>, or it is \<open>ok\<close> with a parsed body.
  \<open>Env\<close> is the relay as the page sees it during one pass, one field per request the
  resolver sends, and the \<open>localeCompare\<close> of the JavaScript engine.
\<close>

datatype 'a Response = Rejected | NotOk | Ok 'a

record Env =
  fetchProject :: "string \<Rightarrow> ProjectInfo Response"
  fetchVersions :: "string \<Rightarrow> string \<Rightarrow> string \<Rightarrow> VersionInfo list Response"
  fetchAllVersions :: "string \<Rightarrow> VersionInfo list Response"
  localeCompare :: "string \<Rightarrow> string \<Rightarrow> int"

datatype error = FetchRejected

record ProjectFields =
  pf_title :: "string option"
  pf_iconUrl :: "string option"
  pf_currentVersion :: "string option"

definition first_opt :: "'a list option \<Rightarrow> 'a option" where
  \<comment> \<open>\<open>xs?.[0]\<close>\<close>
  "first_opt xs = (case xs of Some (x # _) \<Rightarrow> Some x | _ \<Rightarrow> None)"

definition or_else :: "'a option \<Rightarrow> 'a \<Rightarrow> 'a" where
  \<comment> \<open>\<open>a ?? b\<close>\<close>
  "or_else a b = (case a of Some x \<Rightarrow> x | None \<Rightarrow> b)"

definition truthy_bool :: "bool option \<Rightarrow> bool" where
  "truthy_bool b = (b = Some True)"

definition truthy_string :: "string option \<Rightarrow> bool" where
  "truthy_string s = (case s of Some x \<Rightarrow> x \<noteq> [] | None \<Rightarrow> False)"

definition fetchProjectInfoById :: "Env \<Rightarrow> string \<Rightarrow> ProjectFields" where
  "fetchProjectInfoById env pid =
     (case fetchProject env pid of
        Ok data \<Rightarrow>
          \<lparr>pf_title = project_title data, pf_iconUrl = icon_url data,
           pf_currentVersion = first_opt (project_game_versions data)\<rparr>
      | _ \<Rightarrow> \<lparr>pf_title = None, pf_iconUrl = None, pf_currentVersion = None\<rparr>)"

definition dependencyTitle :: "Env \<Rightarrow> string \<Rightarrow> DependencyItem" where
  \<comment> \<open>the body of the \<open>requiredIds.map\<close> callback of \<open>resolveDependencyTitles\<close>\<close>
  "dependencyTitle env pid =
     (case fetchProject env pid of
        Ok data \<Rightarrow>
          \<lparr>dep_id = pid, dep_title = or_else (project_title data) pid, dep_iconUrl = icon_url data\<rparr>
      | _ \<Rightarrow> \<lparr>dep_id = pid, dep_title = pid, dep_iconUrl = None\<rparr>)"

definition requiredIds :: "VersionDependency list \<Rightarrow> string list" where
  "requiredIds deps =
     dedupe (map (\<lambda>dep. or_else (project_id dep) [])
       (filter (\<lambda>dep. dependency_type dep = Some ''required'' \<and> truthy_string (project_id dep))
          deps))"

definition resolveDependencyTitles ::
  "Env \<Rightarrow> VersionDependency list option \<Rightarrow> DependencyItem list" where
  "resolveDependencyTitles env deps =
     (case deps of
        None \<Rightarrow> []
      | Some ds \<Rightarrow> map (dependencyTitle env) (requiredIds ds))"

fun insort_cmp :: "('a \<Rightarrow> 'a \<Rightarrow> int) \<Rightarrow> 'a \<Rightarrow> 'a list \<Rightarrow> 'a list" where
  "insort_cmp cmp x [] = [x]"
| "insort_cmp cmp x (y # ys) = (if cmp x y \<le> 0 then x # y # ys else y # insort_cmp cmp x ys)"

definition sort_cmp :: "('a \<Rightarrow> 'a \<Rightarrow> int) \<Rightarrow> 'a list \<Rightarrow> 'a list" where
  \<comment> \<open>\<open>[...xs].sort(cmp)\<close>, a stable sort\<close>
  "sort_cmp cmp xs = foldr (insort_cmp cmp) xs []"

definition getLatestSupportedVersion :: "Env \<Rightarrow> VersionInfo list \<Rightarrow> string option" where
  "getLatestSupportedVersion env versions =
     (case versions of
        [] \<Rightarrow> None
      | v0 # _ \<Rightarrow>
          (let sorted = sort_cmp (\<lambda>a b. localeCompare env (or_else (date_published b) [])
                                      (or_else (date_published a) [])) versions;
               latest = (case sorted of s # _ \<Rightarrow> s | [] \<Rightarrow> v0)
           in first_opt (game_versions latest)))"

definition resolveItem :: "Env \<Rightarrow> string \<Rightarrow> string \<Rightarrow> CartItem \<Rightarrow> error + CartItem" where
  "resolveItem env target loader item =
     (if paused item then Inr item
      else if truthy_bool (isCustom item) \<or> source item = STATUS_CUSTOM then
        Inr (item\<lparr>status := STATUS_CUSTOM, statusTone := accent, targetVersion := ''-'',
                  currentVersion := ''-'', filename := None\<rparr>)
      else
        (let projectInfo = fetchProjectInfoById env (item_id item);
             baseItem = item\<lparr>
               title := or_else (pf_title projectInfo) (title item),
               iconUrl := (case pf_iconUrl projectInfo of Some u \<Rightarrow> Some u | None \<Rightarrow> iconUrl item),
               currentVersion :=
                 (if currentVersion item = STATUS_UNKNOWN
                  then or_else (pf_currentVersion projectInfo) (currentVersion item)
                  else currentVersion item)\<rparr>;
             loaderId = toLoaderId loader;
             fallback =
               (case fetchAllVersions env (item_id item) of
                  Rejected \<Rightarrow> Inl FetchRejected
                | Ok versions \<Rightarrow>
                    Inr (baseItem\<lparr>targetVersion := ''-'', status := STATUS_MISSING,
                      statusTone := warning,
                      lastSupportedVersion := getLatestSupportedVersion env versions,
                      filename := None\<rparr>)
                | NotOk \<Rightarrow>
                    Inr (baseItem\<lparr>targetVersion := ''-'', status := STATUS_MISSING,
                      statusTone := warning, filename := None\<rparr>))
         in case fetchVersions env (item_id item) target loaderId of
              Rejected \<Rightarrow> Inl FetchRejected
            | NotOk \<Rightarrow> fallback
            | Ok [] \<Rightarrow> fallback
            | Ok (v # _) \<Rightarrow>
                Inr (baseItem\<lparr>targetVersion := target, status := STATUS_RESOLVABLE,
                  statusTone := success, lastSupportedVersion := None,
                  filename :=
                    (case first_opt (files v) of Some f \<Rightarrow> file_filename f | None \<Rightarrow> None),
                  dependencies := Some (resolveDependencyTitles env (version_dependencies v))\<rparr>)))"

section \<open>The list state and its handlers\<close>

text \<open>
  The React state of \<open>Home\<close> that the handlers below read and write. \<open>targetVersion\<close> and
  \<open>loader\<close> of the component are the fields \<open>targetVersion_state\<close> and \<open>loader_state\<close>. The
  notice shown to the user is kept as the name of the message, not as its text.
\<close>

datatype Notice =
    NoNotice
  | NothingToResolve
  | ResolveDone
  | ResolveDoneWithDependencies nat
  | ResolveFailed
  | AlreadyInList
  | Added
  | ItemRemoved
  | NothingSelected
  | ListDownloaded

record AppState =
  cartItems :: "CartItem list"
  selectedMods :: "string set"
  targetVersion_state :: string
  loader_state :: string
  notice :: Notice


definition pendingItem ::
  "string \<Rightarrow> string \<Rightarrow> string \<Rightarrow> string option \<Rightarrow> bool \<Rightarrow> CartItem" where
  \<comment> \<open>the object literal shared by \<open>handleSelectSearchResult\<close> and the dependency expansion\<close>
  "pendingItem pid ttl target icon isDep =
     \<lparr>item_id = pid, title = ttl, source = ''Modrinth'', currentVersion = STATUS_UNKNOWN,
      targetVersion = target, status = STATUS_PENDING, statusTone = accent, paused = False,
      lastSupportedVersion = None, downloaded = Some False, filename = None, iconUrl = icon,
      dependencies = Some [], isDependency = Some isDep, isSelected = None,
      item_note = Some [], isCustom = Some False, customUrl = Some []\<rparr>"

fun map_set :: "'k \<Rightarrow> 'v \<Rightarrow> ('k \<times> 'v) list \<Rightarrow> ('k \<times> 'v) list" where
  "map_set k v [] = [(k, v)]"
| "map_set k v (p # m) = (if fst p = k then (k, v) # m else p # map_set k v m)"

text \<open>
  The two nested \<open>forEach\<close> loops of \<open>handleResolve\<close>. The accumulator is the triple of
  \<open>dependencyItems\<close>, \<open>dependencyIds\<close> and \<open>dependencySelectionMap\<close> (a \<open>Map\<close>, kept as the list
  of its entries in insertion order).
\<close>

type_synonym Expansion = "CartItem list \<times> string set \<times> (string \<times> bool) list"

definition expandDependency ::
  "string set \<Rightarrow> string set \<Rightarrow> string \<Rightarrow> CartItem \<Rightarrow> Expansion \<Rightarrow> DependencyItem \<Rightarrow> Expansion"
  where
  "expandDependency existingIds selected target item acc dep =
     (case acc of (dependencyItems, dependencyIds, dependencySelectionMap) \<Rightarrow>
        if dep_id dep \<in> existingIds \<or> dep_id dep \<in> dependencyIds then acc
        else
          (let isCurrentSelected = (item_id item \<in> selected);
               selectionMap' =
                 (case map_of dependencySelectionMap (dep_id dep) of
                    Some old \<Rightarrow>
                      map_set (dep_id dep) (old \<or> isCurrentSelected) dependencySelectionMap
                  | None \<Rightarrow> map_set (dep_id dep) isCurrentSelected dependencySelectionMap)
           in (dependencyItems @ [pendingItem (dep_id dep) (dep_title dep) target (dep_iconUrl dep) True],
               insert (dep_id dep) dependencyIds, selectionMap')))"

definition expandItem ::
  "string set \<Rightarrow> string set \<Rightarrow> string \<Rightarrow> Expansion \<Rightarrow> CartItem \<Rightarrow> Expansion" where
  "expandItem existingIds selected target acc item =
     (case dependencies item of
        None \<Rightarrow> acc
      | Some deps \<Rightarrow> foldl (expandDependency existingIds selected target item) acc deps)"

definition expandAll ::
  "string set \<Rightarrow> string set \<Rightarrow> string \<Rightarrow> CartItem list \<Rightarrow> Expansion" where
  "expandAll existingIds selected target resolved =
     foldl (expandItem existingIds selected target) ([], {}, []) resolved"

definition resetDownloaded :: "CartItem \<Rightarrow> CartItem" where
  "resetDownloaded item = item\<lparr>downloaded := Some False\<rparr>"

definition filled :: "'a option list \<Rightarrow> 'a list option" where
  \<comment> \<open>the array when no slot is a hole\<close>
  "filled results = (if None \<in> set results then None else Some (map the results))"

text \<open>
  \<open>handleResolve\<close>. The two schedules are the completion orders of its two \<open>runPool\<close> calls.
  A rejection inside the \<open>try\<close> is caught: the state keeps its list and shows the failure
  notice. With the limit 10 no slot of a result array is a hole (lemma \<open>runPool_Inr\<close>),
  so the branches for a hole, which here keep the state, are never taken.
\<close>

definition handleResolve :: "Env \<Rightarrow> nat list \<Rightarrow> nat list \<Rightarrow> AppState \<Rightarrow> AppState" where
  "handleResolve env sched1 sched2 st =
     (if cartItems st = [] then st\<lparr>notice := NothingToResolve\<rparr>
      else
        let worker = resolveItem env (targetVersion_state st) (loader_state st) in
        case runPool (cartItems st) 10 worker sched1 of
          Inl e \<Rightarrow> st\<lparr>notice := ResolveFailed\<rparr>
        | Inr results \<Rightarrow>
            (case filled results of
               None \<Rightarrow> st
             | Some resolved \<Rightarrow>
                 (let existingIds = set (map item_id (cartItems st));
                      expansion = expandAll existingIds (selectedMods st)
                        (targetVersion_state st) resolved;
                      dependencyItems = fst expansion;
                      dependencySelectionMap = snd (snd expansion)
                  in if dependencyItems \<noteq> [] then
                       (case runPool dependencyItems 10 worker sched2 of
                          Inl e \<Rightarrow> st\<lparr>notice := ResolveFailed\<rparr>
                        | Inr depResults \<Rightarrow>
                            (case filled depResults of
                               None \<Rightarrow> st
                             | Some resolvedDeps \<Rightarrow>
                                 st\<lparr>cartItems := map resetDownloaded (resolved @ resolvedDeps),
                                    selectedMods := selectedMods st \<union>
                                      set (map fst (filter snd dependencySelectionMap)),
                                    notice :=
                                      ResolveDoneWithDependencies (length dependencyItems)\<rparr>))
                     else st\<lparr>cartItems := map resetDownloaded resolved,
                             notice := ResolveDone\<rparr>)))"






definition exportedName :: "CartItem \<Rightarrow> string" where
  \<comment> \<open>\<open>item.filename ?? `${item.title}(...)`\<close>\<close>
  "exportedName item = or_else (filename item) (title item @ VERSION_MISSING_SUFFIX)"

text \<open>
  \<open>handleDownloadSelected\<close>: \<open>confirmed\<close> is the answer of \<open>window.confirm\<close>. The first
  component is the array written to the downloaded JSON file, when one is written.
\<close>

definition handleDownloadSelected :: "AppState \<Rightarrow> bool \<Rightarrow> string list option \<times> AppState" where
  "handleDownloadSelected st confirmed =
     (let selected = filter (\<lambda>item. item_id item \<in> selectedMods st) (cartItems st) in
      if selected = [] then (None, st\<lparr>notice := NothingSelected\<rparr>)
      else if \<not> confirmed then (None, st)
      else (Some (map exportedName selected), st\<lparr>notice := ListDownloaded\<rparr>))"




text \<open>The choice of the file in \<open>handleDownload\<close>, once the build list has arrived.\<close>

definition downloadFile :: "VersionInfo \<Rightarrow> VersionFile option" where
  \<comment> \<open>the file \<open>handleDownload\<close> fetches:
      \<open>versions[0].files?.find((entry) => entry.primary) ?? versions[0].files?.[0]\<close>\<close>
  "downloadFile v =
     (case files v of
        None \<Rightarrow> None
      | Some fs \<Rightarrow>
          (case find (\<lambda>entry. truthy_bool (primary entry)) fs of
             Some f \<Rightarrow> Some f
           | None \<Rightarrow> first_opt (Some fs)))"

section \<open>The share-code route\<close>

text \<open>
  The source holds three versions of the \<open>POST\<close> handler of \<open>/api/share-code\<close>: the one of
  \<open>route.ts\<close>, over a JSON file (\<open>POST_file\<close>), and two over the SQLite table of \<open>db.ts\<close>
  (\<open>POST_db\<close>, which overwrites a code whose content changed, and \<open>POST_db_reissue\<close>, which
  issues another code instead).

  An element of \<open>body.items\<close> is kept as the fields \<open>computeHash\<close> reads, each with the type
  the page sends, and the rest of the object in \<open>b_rest\<close>. \<open>digest\<close> stands for SHA-256 in hex
  of \<open>JSON.stringify\<close> of the normalized object, \<open>now\<close> for \<open>new Date().toISOString()\<close>, and
  \<open>rnd\<close> for the bytes \<open>randomBytes\<close> hands out during the request, in order. The body is
  a parsed JSON object, and reading and writing the store succeed: the answer with status
  500 for an exception is not part of \<open>PostResponse\<close>.
\<close>

record BodyItem =
  b_id :: "string option"
  b_title :: "string option"
  b_isDependency :: "bool option"
  b_isSelected :: "bool option"
  b_note :: "string option"
  b_isCustom :: "bool option"
  b_customUrl :: "string option"
  b_rest :: string

record HashItem =
  h_id :: "string option"
  h_title :: "string option"
  h_isDependency :: "bool option"
  h_isSelected :: "bool option"
  h_note :: string
  h_isCustom :: bool
  h_customUrl :: string

record Normalized =
  n_targetVersion :: string
  n_loader :: string
  n_items :: "HashItem list"

record Body =
  body_code :: "string option"
  body_targetVersion :: "string option"
  body_loader :: "string option"
  body_items :: "BodyItem list option"

record StoredPayload =
  sp_targetVersion :: string
  sp_loader :: string
  sp_items :: "BodyItem list"
  contentHash :: string
  savedAt :: string

datatype PostResponse =
    Issued string bool
  | MissingPayload
  | FailedToGenerate

definition alphabet :: string where
  "alphabet = ''ABCDEFGHIJKLMNOPQRSTUVWXYZ0123456789''"

definition generateCode :: "(nat \<Rightarrow> 8 word) \<Rightarrow> nat \<Rightarrow> string" where
  \<comment> \<open>the call of \<open>generateCode\<close> that reads the eight bytes from position \<open>pos\<close> on\<close>
  "generateCode rnd pos =
     map (\<lambda>k. alphabet ! (unat (rnd (pos + k)) mod length alphabet)) [0..<8]"

definition hashItem :: "BodyItem \<Rightarrow> HashItem" where
  "hashItem item =
     \<lparr>h_id = b_id item, h_title = b_title item, h_isDependency = b_isDependency item,
      h_isSelected = b_isSelected item, h_note = or_else (b_note item) [],
      h_isCustom = truthy_bool (b_isCustom item), h_customUrl = or_else (b_customUrl item) []\<rparr>"

definition computeHash :: "(Normalized \<Rightarrow> string) \<Rightarrow> string \<Rightarrow> string \<Rightarrow> BodyItem list \<Rightarrow> string"
  where
  "computeHash digest target loader items =
     digest \<lparr>n_targetVersion = target, n_loader = loader, n_items = map hashItem items\<rparr>"

definition newPayload ::
  "string \<Rightarrow> string \<Rightarrow> BodyItem list \<Rightarrow> string \<Rightarrow> string \<Rightarrow> StoredPayload" where
  "newPayload target loader items hash now =
     \<lparr>sp_targetVersion = target, sp_loader = loader, sp_items = items, contentHash = hash,
      savedAt = now\<rparr>"

definition requestedCode :: "Body \<Rightarrow> string option" where
  \<comment> \<open>\<open>body.code?.toUpperCase()\<close> when it is truthy\<close>
  "requestedCode body =
     (case body_code body of
        None \<Rightarrow> None
      | Some c \<Rightarrow> if toUpperCase c = [] then None else Some (toUpperCase c))"

text \<open>
  The codes a request generates are numbered in the order of the calls of \<open>generateCode\<close>,
  from 0. A well-formed code is eight characters of the alphabet.
\<close>

definition candidate :: "(nat \<Rightarrow> 8 word) \<Rightarrow> nat \<Rightarrow> string" where
  \<comment> \<open>the code of the \<open>k\<close>-th call of \<open>generateCode\<close> during a request, counted from 0\<close>
  "candidate rnd k = generateCode rnd (8 * k)"

definition is_code :: "string \<Rightarrow> bool" where
  "is_code c = (length c = 8 \<and> set c \<subseteq> set alphabet)"

subsection \<open>The JSON file of \<open>route.ts\<close>\<close>

text \<open>
  The store is a JavaScript object, read from the file and written back whole. It is kept
  as the list of its entries in the order \<open>Object.entries\<close> gives them: keys that are
  array indices first, ascending, then the other keys in the order of their creation.
  Assigning to a key that exists keeps its place.
\<close>

type_synonym Store = "(string \<times> StoredPayload) list"

definition is_digit :: "char \<Rightarrow> bool" where
  "is_digit c = (48 \<le> (of_char c :: nat) \<and> (of_char c :: nat) \<le> 57)"

definition decimal :: "string \<Rightarrow> nat" where
  "decimal s = foldl (\<lambda>n c. 10 * n + ((of_char c :: nat) - 48)) 0 s"

definition array_index :: "string \<Rightarrow> nat option" where
  \<comment> \<open>the canonical numeric strings below \<open>2^32 - 1\<close>\<close>
  "array_index s =
     (if s \<noteq> [] \<and> list_all is_digit s \<and> (hd s \<noteq> CHR ''0'' \<or> s = ''0'') \<and>
         decimal s < 2 ^ 32 - 1
      then Some (decimal s) else None)"

fun insert_index :: "nat \<Rightarrow> string \<times> StoredPayload \<Rightarrow> Store \<Rightarrow> Store" where
  "insert_index n e [] = [e]"
| "insert_index n e (p # ps) =
     (case array_index (fst p) of
        Some m \<Rightarrow> if m < n then p # insert_index n e ps else e # p # ps
      | None \<Rightarrow> e # p # ps)"

definition store_put :: "string \<Rightarrow> StoredPayload \<Rightarrow> Store \<Rightarrow> Store" where
  \<comment> \<open>\<open>store[k] = v\<close>\<close>
  "store_put k v store =
     (if k \<in> fst ` set store then map (\<lambda>p. if fst p = k then (k, v) else p) store
      else case array_index k of
             None \<Rightarrow> store @ [(k, v)]
           | Some n \<Rightarrow> insert_index n (k, v) store)"

partial_function (option) freshCode :: "Store \<Rightarrow> (nat \<Rightarrow> 8 word) \<Rightarrow> nat \<Rightarrow> string \<Rightarrow> string option"
  where
  "freshCode store rnd pos code =
     (if map_of store code \<noteq> None then freshCode store rnd (pos + 8) (generateCode rnd pos)
      else Some code)"

text \<open>
  \<open>POST_file\<close> is \<open>None\<close> when the handler never answers: its \<open>while (store[code])\<close> loop has
  no bound.
\<close>

definition POST_file ::
  "(Normalized \<Rightarrow> string) \<Rightarrow> string \<Rightarrow> (nat \<Rightarrow> 8 word) \<Rightarrow> Store \<Rightarrow> Body \<Rightarrow>
   (PostResponse \<times> Store) option" where
  "POST_file digest now rnd store body =
     (case (body_items body, body_targetVersion body, body_loader body) of
        (Some items, Some target, Some loader) \<Rightarrow>
          if target = [] \<or> loader = [] then Some (MissingPayload, store)
          else
            (let hash = computeHash digest target loader items;
                 payload = newPayload target loader items hash now;
                 existing = (case requestedCode body of
                               None \<Rightarrow> None
                             | Some rc \<Rightarrow> map_option (\<lambda>p. (rc, p)) (map_of store rc))
             in case existing of
                  Some (rc, p) \<Rightarrow>
                    if contentHash p = hash then Some (Issued rc False, store)
                    else Some (Issued rc True, store_put rc payload store)
                | None \<Rightarrow>
                    (case find (\<lambda>e. contentHash (snd e) = hash) store of
                       Some e \<Rightarrow> Some (Issued (fst e) False, store)
                     | None \<Rightarrow>
                         (case freshCode store rnd 8 (generateCode rnd 0) of
                            None \<Rightarrow> None
                          | Some code \<Rightarrow>
                              Some (Issued code False, store_put code payload store))))
      | _ \<Rightarrow> Some (MissingPayload, store))"

subsection \<open>The SQLite table of \<open>db.ts\<close>\<close>

text \<open>
  The table \<open>share_codes\<close> is the list of its rows (\<open>id\<close>, payload) in rowid order, one row
  per \<open>id\<close>. \<open>INSERT OR REPLACE\<close> deletes the row of that \<open>id\<close> and adds the new row at the
  end; \<open>SELECT ... WHERE contentHash = ? LIMIT 1\<close> is taken to give the first such row.
\<close>

type_synonym Table = "(string \<times> StoredPayload) list"

definition getShareCode :: "Table \<Rightarrow> string \<Rightarrow> StoredPayload option" where
  "getShareCode db code = map_of db (toUpperCase code)"

definition saveShareCode :: "Table \<Rightarrow> string \<Rightarrow> StoredPayload \<Rightarrow> Table" where
  "saveShareCode db code payload =
     filter (\<lambda>row. fst row \<noteq> toUpperCase code) db @ [(toUpperCase code, payload)]"

definition findShareCodeByHash :: "Table \<Rightarrow> string \<Rightarrow> string option" where
  \<comment> \<open>\<open>row?.id || null\<close>\<close>
  "findShareCodeByHash db hash =
     (case find (\<lambda>row. contentHash (snd row) = hash) db of
        None \<Rightarrow> None
      | Some row \<Rightarrow> if fst row = [] then None else Some (fst row))"

function retryCode ::
  "Table \<Rightarrow> (nat \<Rightarrow> 8 word) \<Rightarrow> nat \<Rightarrow> string \<Rightarrow> nat \<Rightarrow> string \<times> nat" where
  "retryCode db rnd pos code attempts =
     (if getShareCode db code \<noteq> None \<and> attempts < 100
      then retryCode db rnd (pos + 8) (generateCode rnd pos) (attempts + 1)
      else (code, attempts))"
  by pat_completeness auto
termination
  by (relation "measure (\<lambda>(db, rnd, pos, code, attempts). 100 - attempts)") auto

declare retryCode.simps [simp del]

definition issueFresh ::
  "(nat \<Rightarrow> 8 word) \<Rightarrow> Table \<Rightarrow> StoredPayload \<Rightarrow> bool \<Rightarrow> PostResponse \<times> Table" where
  \<comment> \<open>from \<open>let code = generateCode()\<close> to the last \<open>return\<close> of the two handlers\<close>
  "issueFresh rnd db payload updated =
     (case retryCode db rnd 8 (generateCode rnd 0) 0 of
        (code, attempts) \<Rightarrow>
          if attempts \<ge> 100 then (FailedToGenerate, db)
          else (Issued code updated, saveShareCode db code payload))"

definition POST_db ::
  "(Normalized \<Rightarrow> string) \<Rightarrow> string \<Rightarrow> (nat \<Rightarrow> 8 word) \<Rightarrow> Table \<Rightarrow> Body \<Rightarrow>
   PostResponse \<times> Table" where
  "POST_db digest now rnd db body =
     (case (body_items body, body_targetVersion body, body_loader body) of
        (Some items, Some target, Some loader) \<Rightarrow>
          if target = [] \<or> loader = [] then (MissingPayload, db)
          else
            (let hash = computeHash digest target loader items;
                 payload = newPayload target loader items hash now;
                 existing = (case requestedCode body of
                               None \<Rightarrow> None
                             | Some rc \<Rightarrow> map_option (\<lambda>p. (rc, p)) (getShareCode db rc))
             in case existing of
                  Some (rc, p) \<Rightarrow>
                    if contentHash p = hash then (Issued rc False, db)
                    else (Issued rc True, saveShareCode db rc payload)
                | None \<Rightarrow>
                    (case findShareCodeByHash db hash of
                       Some existingCode \<Rightarrow> (Issued existingCode False, db)
                     | None \<Rightarrow> issueFresh rnd db payload False))
      | _ \<Rightarrow> (MissingPayload, db))"

definition POST_db_reissue ::
  "(Normalized \<Rightarrow> string) \<Rightarrow> string \<Rightarrow> (nat \<Rightarrow> 8 word) \<Rightarrow> Table \<Rightarrow> Body \<Rightarrow>
   PostResponse \<times> Table" where
  "POST_db_reissue digest now rnd db body =
     (case (body_items body, body_targetVersion body, body_loader body) of
        (Some items, Some target, Some loader) \<Rightarrow>
          if target = [] \<or> loader = [] then (MissingPayload, db)
          else
            (let hash = computeHash digest target loader items;
                 payload = newPayload target loader items hash now;
                 unchanged = (case requestedCode body of
                                None \<Rightarrow> None
                              | Some rc \<Rightarrow>
                                  (case getShareCode db rc of
                                     None \<Rightarrow> None
                                   | Some p \<Rightarrow> if contentHash p = hash then Some rc else None))
             in case unchanged of
                  Some rc \<Rightarrow> (Issued rc False, db)
                | None \<Rightarrow>
                    (case findShareCodeByHash db hash of
                       Some existingCodeByHash \<Rightarrow> (Issued existingCodeByHash False, db)
                     | None \<Rightarrow> issueFresh rnd db payload (requestedCode body \<noteq> None)))
      | _ \<Rightarrow> (MissingPayload, db))"

section \<open>Concrete inputs\<close>

text \<open>
  The inputs on which the resolver is run below: a build of \<open>sodium\<close> for 1.20.1 whose
  first file is not its primary file, an entry \<open>oldmod\<close> whose only build is for 1.16.5,
  and a registry that answers every filtered and every unfiltered query the same way.
\<close>

definition sodium_build :: VersionInfo where
  "sodium_build =
     \<lparr>version_id = ''v1'', game_versions = Some [''1.20.1''],
      date_published = Some ''2024-01-01T00:00:00Z'',
      files = Some
        [\<lparr>url = ''https://cdn.example/sodium-0.5-sources.jar'', primary = Some False,
          file_filename = Some ''sodium-0.5-sources.jar''\<rparr>,
         \<lparr>url = ''https://cdn.example/sodium-0.5.jar'', primary = Some True,
          file_filename = Some ''sodium-0.5.jar''\<rparr>],
      version_dependencies = Some []\<rparr>"

definition sodium_env :: Env where
  "sodium_env =
     \<lparr>fetchProject = (\<lambda>pid. NotOk),
      fetchVersions = (\<lambda>pid gameVersion loader.
         if pid = ''sodium'' \<and> gameVersion = ''1.20.1'' \<and> loader = ''fabric''
         then Ok [sodium_build] else Ok []),
      fetchAllVersions = (\<lambda>pid. Ok []),
      localeCompare = (\<lambda>a b. 0)\<rparr>"

definition old_build :: VersionInfo where
  "old_build =
     \<lparr>version_id = ''v0'', game_versions = Some [''1.16.5''],
      date_published = Some ''2021-03-01T00:00:00Z'',
      files = Some [\<lparr>url = ''https://cdn.example/oldmod-1.0.jar'', primary = Some True,
                     file_filename = Some ''oldmod-1.0.jar''\<rparr>],
      version_dependencies = None\<rparr>"

definition registry_with :: "VersionInfo list Response \<Rightarrow> VersionInfo list Response \<Rightarrow> Env" where
  "registry_with filtered unfiltered =
     \<lparr>fetchProject = (\<lambda>pid. NotOk), fetchVersions = (\<lambda>pid gameVersion loader. filtered),
      fetchAllVersions = (\<lambda>pid. unfiltered), localeCompare = (\<lambda>a b. 0)\<rparr>"

definition oldmod :: CartItem where
  "oldmod = pendingItem ''oldmod'' ''OldMod'' ''1.21.1'' None False"


text \<open>
  A registry in which every project but \<open>lib-x\<close> has one build that requires \<open>lib-x\<close>, a list
  of three entries, the last one paused, all marked as downloaded; a search hit; and the
  list of scenario C of the specification with one more entry that is not selected.
\<close>

definition parent_build :: VersionInfo where
  "parent_build =
     \<lparr>version_id = ''p1'', game_versions = Some [''1.20.1''],
      date_published = Some ''2024-02-01T00:00:00Z'',
      files = Some [\<lparr>url = ''https://cdn.example/parent.jar'', primary = Some True,
                     file_filename = Some ''parent.jar''\<rparr>],
      version_dependencies = Some
        [\<lparr>project_id = Some ''lib-x'', dependency_type = Some ''required''\<rparr>,
         \<lparr>project_id = Some ''extra'', dependency_type = Some ''optional''\<rparr>]\<rparr>"

definition lib_build :: VersionInfo where
  "lib_build =
     \<lparr>version_id = ''x1'', game_versions = Some [''1.20.1''],
      date_published = Some ''2024-01-15T00:00:00Z'',
      files = Some [\<lparr>url = ''https://cdn.example/lib-x.jar'', primary = Some True,
                     file_filename = Some ''lib-x.jar''\<rparr>],
      version_dependencies = Some []\<rparr>"

definition lib_env :: Env where
  "lib_env =
     \<lparr>fetchProject = (\<lambda>pid. NotOk),
      fetchVersions = (\<lambda>pid gameVersion loader.
         if pid = ''lib-x'' then Ok [lib_build] else Ok [parent_build]),
      fetchAllVersions = (\<lambda>pid. Ok []),
      localeCompare = (\<lambda>a b. 0)\<rparr>"

definition three_entries :: "string set \<Rightarrow> AppState" where
  "three_entries selected =
     \<lparr>cartItems =
        [(pendingItem ''mod-a'' ''Mod A'' ''1.20.1'' None False)\<lparr>downloaded := Some True\<rparr>,
         (pendingItem ''mod-b'' ''Mod B'' ''1.20.1'' None False)\<lparr>downloaded := Some True\<rparr>,
         (pendingItem ''mod-c'' ''Mod C'' ''1.20.1'' None False)
           \<lparr>paused := True, status := STATUS_PAUSED, downloaded := Some True\<rparr>],
      selectedMods = selected, targetVersion_state = ''1.20.1'', loader_state = ''Fabric'',
      notice = NoNotice\<rparr>"


definition scenario_C :: AppState where
  "scenario_C =
     \<lparr>cartItems =
        [(pendingItem ''sodium'' ''Sodium'' ''1.20.1'' None False)
           \<lparr>status := STATUS_RESOLVABLE, statusTone := success,
            filename := Some ''sodium-0.5.jar''\<rparr>,
         (pendingItem ''lithium'' ''Lithium'' ''1.20.1'' None False)
           \<lparr>status := STATUS_RESOLVABLE, statusTone := success,
            filename := Some ''lithium-0.11.jar''\<rparr>,
         (pendingItem ''oldmod'' ''OldMod'' ''1.20.1'' None False)
           \<lparr>targetVersion := ''-'', status := STATUS_MISSING, statusTone := warning,
            lastSupportedVersion := Some ''1.16.5''\<rparr>],
      selectedMods = {''sodium'', ''oldmod''}, targetVersion_state = ''1.20.1'',
      loader_state = ''Fabric'', notice = NoNotice\<rparr>"

text \<open>
  Inputs of the share route: a stand-in for the digest that keeps the target version, the
  loader and the ids apart, a body with one item, a store with the single code
  \<open>AAAAAAAA\<close>, and two byte sources, one giving zero bytes for the first \<open>m\<close> codes and
  ones afterwards, one giving zero bytes for ever.
\<close>

definition toy_digest :: "Normalized \<Rightarrow> string" where
  "toy_digest n =
     n_targetVersion n @ ''/'' @ n_loader n @ ''/'' @
     concat (map (\<lambda>item. or_else (h_id item) [] @ '','') (n_items n))"

definition sodium_item :: BodyItem where
  "sodium_item =
     \<lparr>b_id = Some ''sodium'', b_title = Some ''Sodium'', b_isDependency = Some False,
      b_isSelected = Some True, b_note = Some [], b_isCustom = Some False,
      b_customUrl = Some [], b_rest = []\<rparr>"

definition share_body :: "string option \<Rightarrow> string \<Rightarrow> Body" where
  "share_body code target =
     \<lparr>body_code = code, body_targetVersion = Some target, body_loader = Some ''fabric'',
      body_items = Some [sodium_item]\<rparr>"

definition share_payload :: "string \<Rightarrow> string \<Rightarrow> StoredPayload" where
  "share_payload target now =
     newPayload target ''fabric'' [sodium_item]
       (computeHash toy_digest target ''fabric'' [sodium_item]) now"

definition one_code :: "(string \<times> StoredPayload) list" where
  "one_code = [(''AAAAAAAA'', share_payload ''1.20.1'' ''2026-01-01T00:00:00.000Z'')]"

definition zeros_then_ones :: "nat \<Rightarrow> nat \<Rightarrow> 8 word" where
  "zeros_then_ones m i = (if i < 8 * m then 0 else 1)"

definition all_zeros :: "nat \<Rightarrow> 8 word" where
  "all_zeros i = 0"

section \<open>Properties of the concurrency runner\<close>

text \<open>
  The invariant of the event loop, for an input \<open>xs\<close>: every pair in flight or queued is
  an element of \<open>xs\<close> with its index, every index not in flight or queued has its slot
  filled with the worker's result, and the calls so far followed by the queued indices
  are \<open>0, ..., n - 1\<close>. A run ends in the first error of a worker or with every slot filled.
\<close>

definition pool_inv ::
  "'a list \<Rightarrow> ('a \<Rightarrow> 'e + 'a) \<Rightarrow> ('a \<times> nat) list \<Rightarrow> ('a \<times> nat) list \<Rightarrow>
   'a option list \<Rightarrow> nat list \<Rightarrow> bool" where
  "pool_inv xs w queue inflight results calls \<longleftrightarrow>
     length results = length xs \<and>
     (inflight = [] \<longrightarrow> queue = []) \<and>
     (\<forall>p \<in> set (inflight @ queue). snd p < length xs \<and> fst p = xs ! snd p) \<and>
     (\<forall>i < length xs. i \<notin> snd ` set (inflight @ queue) \<longrightarrow>
        (\<exists>y. w (xs ! i) = Inr y \<and> results ! i = Some y)) \<and>
     calls @ map snd queue = [0..<length xs]"

definition pool_post ::
  "'a list \<Rightarrow> ('a \<Rightarrow> 'e + 'a) \<Rightarrow> 'e + ('a option list \<times> nat list) \<Rightarrow> bool" where
  "pool_post xs w out =
     (case out of
        Inl e \<Rightarrow> \<exists>x \<in> set xs. w x = Inl e
      | Inr (rs, cs) \<Rightarrow>
          length rs = length xs \<and> (\<forall>i < length xs. \<exists>y. w (xs ! i) = Inr y \<and> rs ! i = Some y) \<and>
          cs = [0..<length xs])"

lemma pick_less: "0 < n \<Longrightarrow> pick sched n < n"
  by (cases sched) simp_all

lemma set_remove_nth_cover:
  "j < length fl \<Longrightarrow> set fl = insert (fl ! j) (set (take j fl @ drop (Suc j) fl))"
proof -
  assume j: "j < length fl"
  have "fl = take j fl @ fl ! j # drop (Suc j) fl"
    using j by (rule id_take_nth_drop)
  then have "set fl = set (take j fl @ fl ! j # drop (Suc j) fl)" by simp
  then show ?thesis by simp
qed

lemma set_update_cover:
  "j < length fl \<Longrightarrow> set fl \<subseteq> insert (fl ! j) (set (fl[j := x]))"
proof
  fix q assume j: "j < length fl" and "q \<in> set fl"
  then obtain k where k: "k < length fl" "q = fl ! k" by (metis in_set_conv_nth)
  show "q \<in> insert (fl ! j) (set (fl[j := x]))"
  proof (cases "k = j")
    case True then show ?thesis using k by simp
  next
    case False
    then have "fl[j := x] ! k = q" using k by simp
    moreover have "k < length (fl[j := x])" using k by simp
    ultimately show ?thesis by (metis insertI2 nth_mem)
  qed
qed

lemma pool_inv_finish:
  assumes inv: "pool_inv xs w [] fl results calls"
    and j: "j < length fl"
    and ok: "w (fst (fl ! j)) = Inr y"
  shows "pool_inv xs w [] (remove_nth j fl) (results[snd (fl ! j) := Some y]) calls"
proof -
  let ?p = "fl ! j"
  have mem: "?p \<in> set fl" using j by (meson nth_mem)
  have cover: "set fl = insert ?p (set (remove_nth j fl))"
    using set_remove_nth_cover[OF j] by simp
  from inv have len: "length results = length xs"
    and P: "\<forall>p \<in> set fl. snd p < length xs \<and> fst p = xs ! snd p"
    and D: "\<forall>i < length xs. i \<notin> snd ` set fl \<longrightarrow> (\<exists>y. w (xs ! i) = Inr y \<and> results ! i = Some y)"
    and C: "calls = [0..<length xs]"
    by (simp_all add: pool_inv_def)
  have pj: "snd ?p < length xs" "fst ?p = xs ! snd ?p" using P mem by blast+
  have D': "\<exists>y'. w (xs ! i) = Inr y' \<and> results[snd ?p := Some y] ! i = Some y'"
    if i: "i < length xs" and ni: "i \<notin> snd ` set (remove_nth j fl)" for i
  proof (cases "i = snd ?p")
    case True
    then show ?thesis using ok pj len by simp
  next
    case False
    then have "i \<notin> snd ` set fl" using ni cover by auto
    then show ?thesis using D i False by simp
  qed
  have P': "\<forall>p \<in> set (remove_nth j fl). snd p < length xs \<and> fst p = xs ! snd p"
    using P cover by blast
  show ?thesis
    unfolding pool_inv_def using len P' C D' by (simp del: remove_nth.simps)
qed

lemma pool_inv_next:
  assumes inv: "pool_inv xs w (nxt # queue) fl results calls"
    and j: "j < length fl"
    and ok: "w (fst (fl ! j)) = Inr y"
  shows "pool_inv xs w queue (fl[j := nxt]) (results[snd (fl ! j) := Some y])
     (calls @ [snd nxt])"
proof -
  let ?p = "fl ! j"
  have mem: "?p \<in> set fl" using j by (meson nth_mem)
  have sub: "set (fl[j := nxt]) \<subseteq> insert nxt (set fl)"
    by (rule set_update_subset_insert)
  have cover: "set fl \<subseteq> insert ?p (set (fl[j := nxt]))"
    using j by (rule set_update_cover)
  from inv have len: "length results = length xs"
    and P: "\<forall>p \<in> set (fl @ nxt # queue). snd p < length xs \<and> fst p = xs ! snd p"
    and D: "\<forall>i < length xs. i \<notin> snd ` set (fl @ nxt # queue) \<longrightarrow>
        (\<exists>y. w (xs ! i) = Inr y \<and> results ! i = Some y)"
    and C: "calls @ snd nxt # map snd queue = [0..<length xs]"
    by (simp_all add: pool_inv_def)
  have pj: "snd ?p < length xs" "fst ?p = xs ! snd ?p" using P mem by auto
  have D': "\<exists>y'. w (xs ! i) = Inr y' \<and> results[snd ?p := Some y] ! i = Some y'"
    if i: "i < length xs" and ni: "i \<notin> snd ` set (fl[j := nxt] @ queue)" for i
  proof (cases "i = snd ?p")
    case True
    then show ?thesis using ok pj len by simp
  next
    case False
    have "nxt \<in> set (fl[j := nxt])" using j by (rule set_update_memI)
    then have "i \<notin> snd ` set (fl @ nxt # queue)" using ni cover False by auto
    then show ?thesis using D i False by simp
  qed
  have P': "\<forall>p \<in> set (fl[j := nxt] @ queue). snd p < length xs \<and> fst p = xs ! snd p"
    using P sub by auto
  have ne: "fl[j := nxt] \<noteq> []" using j by auto
  show ?thesis
    unfolding pool_inv_def using len P' C D' ne by simp
qed

lemma runPool_events_post:
  "pool_inv xs w queue inflight results calls \<Longrightarrow>
   pool_post xs w (runPool_events w sched queue inflight results calls)"
proof (induction w sched queue inflight results calls rule: runPool_events.induct)
  case (1 worker sched queue results calls)
  then show ?case by (auto simp: pool_inv_def pool_post_def)
next
  case (2 worker sched queue r rs results calls)
  let ?j = "pick sched (length (r # rs))"
  let ?p = "(r # rs) ! ?j"
  have j: "?j < length (r # rs)" by (rule pick_less) simp
  have mem: "?p \<in> set (r # rs)" using j by (meson nth_mem)
  from "2.prems" have P: "snd ?p < length xs" "fst ?p = xs ! snd ?p"
    using mem by (auto simp: pool_inv_def)
  show ?case
  proof (cases "worker (fst ?p)")
    case (Inl e)
    have "fst ?p \<in> set xs" using P by simp
    then show ?thesis using Inl by (auto simp: pool_post_def Let_def simp del: pick.simps)
  next
    case (Inr y)
    show ?thesis
    proof (cases queue)
      case Nil
      have "pool_inv xs worker [] (remove_nth ?j (r # rs)) (results[snd ?p := Some y]) calls"
        using pool_inv_finish[of xs worker "r # rs" results calls ?j y] j Inr "2.prems" Nil
        by simp
      from "2.IH"(1)[OF refl Inr Nil this] show ?thesis
        using Inr Nil by (simp add: Let_def del: remove_nth.simps)
    next
      case (Cons nxt queue')
      have "pool_inv xs worker queue' ((r # rs)[?j := nxt]) (results[snd ?p := Some y])
          (calls @ [snd nxt])"
        using pool_inv_next[of xs worker nxt queue' "r # rs" results calls ?j y] j Inr
          "2.prems" Cons by simp
      from "2.IH"(2)[OF refl Inr Cons this] show ?thesis
        using Inr Cons by (simp add: Let_def del: list_update.simps)
    qed
  qed
qed


lemma pool_inv_start:
  assumes "0 < limit"
  shows "pool_inv xs w (drop limit (zip xs [0..<length xs])) (take limit (zip xs [0..<length xs]))
     (replicate (length xs) None) (map snd (take limit (zip xs [0..<length xs])))"
proof -
  let ?q = "zip xs [0..<length xs]"
  have all: "set (take limit ?q @ drop limit ?q) = set ?q" by simp
  have mem: "snd p < length xs \<and> fst p = xs ! snd p" if "p \<in> set ?q" for p
  proof -
    from that obtain k where k: "k < length ?q" "p = ?q ! k" by (metis in_set_conv_nth)
    then show ?thesis by simp
  qed
  have snds: "snd ` set ?q = {0..<length xs}"
  proof -
    have "snd ` set ?q = set (map snd ?q)" by (simp only: set_map)
    also have "map snd ?q = [0..<length xs]" by simp
    finally show ?thesis by simp
  qed
  have empty: "take limit ?q = [] \<longrightarrow> drop limit ?q = []"
    using assms by (cases ?q) auto
  have calls: "map snd (take limit ?q) @ map snd (drop limit ?q) = [0..<length xs]"
  proof -
    have "map snd (take limit ?q) @ map snd (drop limit ?q) = map snd (take limit ?q @ drop limit ?q)"
      by (simp only: map_append)
    then show ?thesis by simp
  qed
  show ?thesis
    unfolding pool_inv_def using empty calls mem snds by (simp only: all) auto
qed

lemma runPool_run_post:
  "0 < limit \<Longrightarrow> pool_post xs w (runPool_run xs limit w sched)"
  unfolding runPool_run_def Let_def
  by (rule runPool_events_post) (rule pool_inv_start)

text \<open>
  Claim C4. For every input list, every positive limit, every worker that does not fail and
  every completion order, \<open>runPool\<close> returns an array of the length of the input whose slot
  \<open>i\<close> holds the worker's result for the input's element \<open>i\<close>; the worker is called once
  for each index \<open>0, ..., n - 1\<close>, none twice and none left out.
\<close>

theorem runPool_preserves_order:
  assumes "0 < limit"
  shows "runPool_run list limit (\<lambda>x. Inr (worker x) :: 'e + 'a) sched =
           Inr (map (\<lambda>x. Some (worker x)) list, [0..<length list]) \<and>
         runPool list limit (\<lambda>x. Inr (worker x) :: 'e + 'a) sched =
           Inr (map (\<lambda>x. Some (worker x)) list)"
proof -
  let ?w = "\<lambda>x. Inr (worker x) :: 'e + 'a"
  have post: "pool_post list ?w (runPool_run list limit ?w sched)"
    using assms by (rule runPool_run_post)
  obtain rs cs where out: "runPool_run list limit ?w sched = Inr (rs, cs)"
    using post by (cases "runPool_run list limit ?w sched") (auto simp: pool_post_def)
  from post out have len: "length rs = length list"
    and nth: "\<forall>i < length list. rs ! i = Some (worker (list ! i))"
    and cs: "cs = [0..<length list]"
    by (auto simp: pool_post_def)
  have "rs = map (\<lambda>x. Some (worker x)) list"
    using len nth by (intro nth_equalityI) simp_all
  then show ?thesis using out cs by (simp add: runPool_def)
qed

theorem runPool_preserves_order_witness:
  "(0::nat) < 2 \<and>
   runPool_run [10, 20, 30 :: int] 2 (\<lambda>x. (Inr (x + 1) :: unit + int)) [1, 0, 0] =
     Inr ([Some 11, Some 21, Some 31], [0, 1, 2]) \<and>
   runPool [10, 20, 30 :: int] 2 (\<lambda>x. (Inr (x + 1) :: unit + int)) [1, 0, 0] =
     Inr [Some 11, Some 21, Some 31]"
  using runPool_preserves_order [of 2 "[10, 20, 30 :: int]" "\<lambda>x. x + 1" "[1, 0, 0]"]
  by (simp add: upt_rec eval_nat_numeral)

section \<open>Properties of the resolver\<close>

lemma toLoaderId_Fabric: "toLoaderId ''Fabric'' = ''fabric''"
  by code_simp

text \<open>
  Claim C1, at an input where it fails. The filtered query for \<open>sodium\<close> returns one build
  whose files are a sources jar and then the primary jar. \<open>resolveItem\<close> stores the name of
  the first file, \<open>versions[0].files?.[0]?.filename\<close>, while \<open>handleDownload\<close> fetches the
  primary one: the claim's filename is the second, the resolved entry carries the first.
\<close>

theorem resolveItem_takes_first_file:
  "map_sum (\<lambda>e. e) filename
     (resolveItem sodium_env ''1.20.1'' ''Fabric'' (pendingItem ''sodium'' ''Sodium'' ''1.20.1'' None False))
     = Inr (Some ''sodium-0.5-sources.jar'') \<and>
   map_option file_filename (downloadFile sodium_build) = Some (Some ''sodium-0.5.jar'')"
  by (simp add: resolveItem_def pendingItem_def sodium_env_def sodium_build_def
      fetchProjectInfoById_def toLoaderId_Fabric first_opt_def truthy_bool_def or_else_def
      downloadFile_def STATUS_CUSTOM_def STATUS_UNKNOWN_def)





section \<open>Properties of a resolution pass\<close>



lemma runPool_Inl:
  assumes "0 < limit" and "runPool xs limit w sched = Inl e"
  shows "\<exists>x \<in> set xs. w x = Inl e"
proof -
  have post: "pool_post xs w (runPool_run xs limit w sched)"
    using assms(1) by (rule runPool_run_post)
  from assms(2) have "runPool_run xs limit w sched = Inl e"
    by (cases "runPool_run xs limit w sched") (auto simp: runPool_def)
  with post show ?thesis by (simp add: pool_post_def)
qed










text \<open>Scenario B of the specification.\<close>

lemma resolveItem_scenario_B:
  "resolveItem (registry_with (Ok []) (Ok [old_build])) ''1.21.1'' ''Fabric'' oldmod =
     Inr (oldmod\<lparr>targetVersion := ''-'', status := STATUS_MISSING, statusTone := warning,
                lastSupportedVersion := Some ''1.16.5''\<rparr>)"
  by (simp add: resolveItem_def registry_with_def oldmod_def pendingItem_def truthy_bool_def
      STATUS_CUSTOM_def fetchProjectInfoById_def Let_def getLatestSupportedVersion_def
      sort_cmp_def old_build_def first_opt_def or_else_def)




text \<open>
  Claim C3, at an input where it fails. \<open>mod-a\<close> and \<open>mod-b\<close> both require \<open>lib-x\<close>, which is
  not in the list. The pass appends one entry \<open>lib-x\<close>. With \<open>mod-b\<close> selected and \<open>mod-a\<close>
  not, \<open>lib-x\<close> is left unselected although a selected parent declares it: the loop returns
  at \<open>dependencyIds.has(dep.id)\<close> before the second parent reaches the branch that would
  combine the two selections, so the first parent in list order decides alone. With
  \<open>mod-a\<close> selected instead, \<open>lib-x\<close> is selected.
\<close>

theorem handleResolve_selection_of_first_parent:
  "map item_id (cartItems (handleResolve lib_env [] [] (three_entries {''mod-b''}))) =
     [''mod-a'', ''mod-b'', ''mod-c'', ''lib-x''] \<and>
   map (\<lambda>item. map_option (map dep_id) (dependencies item))
     (cartItems (handleResolve lib_env [] [] (three_entries {''mod-b''}))) =
     [Some [''lib-x''], Some [''lib-x''], Some [], Some []] \<and>
   selectedMods (handleResolve lib_env [] [] (three_entries {''mod-b''})) = {''mod-b''} \<and>
   selectedMods (handleResolve lib_env [] [] (three_entries {''mod-a''})) = {''mod-a'', ''lib-x''}"
  by code_simp

section \<open>Properties of the list state\<close>












text \<open>
  Claim C6, as amended. When at least one listed entry is selected and the user confirms,
  the exported array has one string for each selected entry, in list order: the entry's
  \<open>filename\<close> when it has one, otherwise its title followed by the literal of the source,
  \<open>VERSION_MISSING_SUFFIX\<close>, which is not the text \<open>(version missing)\<close>.
\<close>

theorem export_selected_in_order:
  assumes "\<exists>item \<in> set (cartItems st). item_id item \<in> selectedMods st"
  shows "fst (handleDownloadSelected st True) =
    Some (map (\<lambda>item. case filename item of
                         Some name \<Rightarrow> name
                       | None \<Rightarrow> title item @ VERSION_MISSING_SUFFIX)
            (filter (\<lambda>item. item_id item \<in> selectedMods st) (cartItems st)))"
proof -
  have "filter (\<lambda>item. item_id item \<in> selectedMods st) (cartItems st) \<noteq> []"
    using assms by (simp add: filter_empty_conv)
  moreover have "exportedName = (\<lambda>item. case filename item of
                         Some name \<Rightarrow> name
                       | None \<Rightarrow> title item @ VERSION_MISSING_SUFFIX)"
    by (rule ext) (simp add: exportedName_def or_else_def)
  ultimately show ?thesis
    by (simp add: handleDownloadSelected_def Let_def)
qed

theorem export_selected_in_order_witness:
  "list_ex (\<lambda>item. item_id item \<in> selectedMods scenario_C) (cartItems scenario_C) \<and>
   fst (handleDownloadSelected scenario_C True) =
     Some [''sodium-0.5.jar'', ''OldMod'' @ VERSION_MISSING_SUFFIX]"
proof -
  have ex: "\<exists>item \<in> set (cartItems scenario_C). item_id item \<in> selectedMods scenario_C"
    by (simp add: scenario_C_def pendingItem_def)
  from export_selected_in_order [OF ex] ex show ?thesis
    by (simp add: list_ex_iff) (simp add: scenario_C_def pendingItem_def)
qed

text \<open>
  The claim as stated fails on scenario C: the second string of the exported array is not
  \<open>OldMod(version missing)\<close>.
\<close>

theorem export_placeholder_counterexample:
  "fst (handleDownloadSelected scenario_C True) \<noteq>
     Some [''sodium-0.5.jar'', ''OldMod(version missing)'']"
  by (simp add: handleDownloadSelected_def scenario_C_def pendingItem_def exportedName_def
      or_else_def VERSION_MISSING_SUFFIX_def)

section \<open>Properties of the share-code route\<close>

text \<open>Generated codes are well formed, and \<open>toUpperCase\<close> leaves them as they are.\<close>

lemma alphabet_length: "length alphabet = 36"
  by (simp add: alphabet_def)

lemma generateCode_is_code: "is_code (generateCode rnd pos)"
proof -
  have "alphabet ! (n mod length alphabet) \<in> set alphabet" for n
    by (rule nth_mem) (simp add: alphabet_length)
  then show ?thesis by (auto simp: is_code_def generateCode_def)
qed

lemma upper_char_alphabet: "\<forall>c \<in> set alphabet. upper_char c = c"
  unfolding alphabet_def by code_simp

lemma is_code_upper: "is_code c \<Longrightarrow> toUpperCase c = c"
  using upper_char_alphabet by (auto simp: is_code_def toUpperCase_def intro!: map_idI)

lemma is_code_nonempty: "is_code c \<Longrightarrow> c \<noteq> []"
  by (auto simp: is_code_def)

lemma toUpperCase_empty: "toUpperCase s = [] \<longleftrightarrow> s = []"
  by (simp add: toUpperCase_def)

text \<open>
  The retry loop of the database routes: it walks through colliding codes while fewer
  than 100 retries were made, and stops at the first code that is free.
\<close>

lemma retryCode_collide:
  assumes "\<forall>i < n. getShareCode db (candidate rnd (k + i)) \<noteq> None" and "a + n \<le> 100"
  shows "retryCode db rnd (8 * (k + 1)) (candidate rnd k) a =
         retryCode db rnd (8 * (k + n + 1)) (candidate rnd (k + n)) (a + n)"
  using assms
proof (induction n arbitrary: k a)
  case 0
  then show ?case by simp
next
  case (Suc n)
  have first: "getShareCode db (candidate rnd k) \<noteq> None"
    using Suc.prems(1) [rule_format, of 0] by simp
  have rest: "\<forall>i < n. getShareCode db (candidate rnd (Suc k + i)) \<noteq> None"
    using Suc.prems(1) by (metis Suc_less_eq add_Suc_right add_Suc_shift)
  have "retryCode db rnd (8 * (k + 1)) (candidate rnd k) a =
      retryCode db rnd (8 * (Suc k + 1)) (candidate rnd (Suc k)) (Suc a)"
    using first Suc.prems(2)
    by (subst retryCode.simps) (simp add: candidate_def algebra_simps)
  also have "\<dots> = retryCode db rnd (8 * (Suc k + n + 1)) (candidate rnd (Suc k + n)) (Suc a + n)"
    using rest Suc.prems(2) by (intro Suc.IH) simp_all
  finally show ?case by simp
qed

lemma retryCode_stop:
  "getShareCode db code = None \<or> 100 \<le> a \<Longrightarrow> retryCode db rnd pos code a = (code, a)"
  by (subst retryCode.simps) auto

lemma issueFresh_free:
  assumes "\<forall>i < n. getShareCode db (candidate rnd i) \<noteq> None"
    and "getShareCode db (candidate rnd n) = None" and "n < 100"
  shows "issueFresh rnd db payload updated =
         (Issued (candidate rnd n) updated, saveShareCode db (candidate rnd n) payload)"
proof -
  have "retryCode db rnd 8 (generateCode rnd 0) 0 =
      retryCode db rnd (8 * (0 + n + 1)) (candidate rnd (0 + n)) (0 + n)"
    using retryCode_collide [of n db rnd 0 0] assms by (simp add: candidate_def)
  also have "\<dots> = (candidate rnd n, n)"
    using assms(2) by (simp add: retryCode_stop)
  finally show ?thesis using assms(3) by (simp add: issueFresh_def)
qed

lemma issueFresh_exhausted:
  assumes "\<forall>i < 100. getShareCode db (candidate rnd i) \<noteq> None"
  shows "issueFresh rnd db payload updated = (FailedToGenerate, db)"
proof -
  have "retryCode db rnd 8 (generateCode rnd 0) 0 =
      retryCode db rnd (8 * (0 + 100 + 1)) (candidate rnd (0 + 100)) (0 + 100)"
    using retryCode_collide [of 100 db rnd 0 0] assms by (simp add: candidate_def)
  also have "\<dots> = (candidate rnd 100, 100)"
    by (simp add: retryCode_stop)
  finally show ?thesis by (simp add: issueFresh_def)
qed

lemma retryCode_result:
  "retryCode db rnd pos code a = (c, n) \<Longrightarrow> n < 100 \<Longrightarrow> getShareCode db c = None"
proof (induction db rnd pos code a rule: retryCode.induct)
  case (1 db rnd pos code attempts)
  note unfold = retryCode.simps [of db rnd pos code attempts]
  show ?case
  proof (cases "getShareCode db code \<noteq> None \<and> attempts < 100")
    case True
    with "1.prems"(1) unfold
    have "retryCode db rnd (pos + 8) (generateCode rnd pos) (attempts + 1) = (c, n)"
      by simp
    from "1.IH" [OF True this "1.prems"(2)] show ?thesis .
  next
    case False
    then have "retryCode db rnd pos code attempts = (code, attempts)"
      by (intro retryCode_stop) auto
    with "1.prems"(1) have "code = c" "attempts = n" by simp_all
    with False "1.prems"(2) show ?thesis by auto
  qed
qed

lemma retryCode_is_code:
  "retryCode db rnd pos code a = (c, n) \<Longrightarrow> is_code code \<Longrightarrow> is_code c"
proof (induction db rnd pos code a rule: retryCode.induct)
  case (1 db rnd pos code attempts)
  note unfold = retryCode.simps [of db rnd pos code attempts]
  show ?case
  proof (cases "getShareCode db code \<noteq> None \<and> attempts < 100")
    case True
    with "1.prems"(1) unfold
    have "retryCode db rnd (pos + 8) (generateCode rnd pos) (attempts + 1) = (c, n)"
      by simp
    from "1.IH" [OF True this generateCode_is_code] show ?thesis .
  next
    case False
    then have "retryCode db rnd pos code attempts = (code, attempts)"
      by (intro retryCode_stop) auto
    with "1.prems"(1) have "code = c" by simp
    with "1.prems"(2) show ?thesis by auto
  qed
qed

lemma issueFresh_cases:
  obtains (exhausted) "issueFresh rnd db payload updated = (FailedToGenerate, db)"
  | (issued) c where "is_code c" "getShareCode db c = None"
      "issueFresh rnd db payload updated = (Issued c updated, saveShareCode db c payload)"
proof -
  obtain c n where r: "retryCode db rnd 8 (generateCode rnd 0) 0 = (c, n)"
    by (cases "retryCode db rnd 8 (generateCode rnd 0) 0")
  show thesis
  proof (cases "n \<ge> 100")
    case True
    with r have "issueFresh rnd db payload updated = (FailedToGenerate, db)"
      by (simp add: issueFresh_def)
    then show thesis by (rule exhausted)
  next
    case False
    then have n: "n < 100" by simp
    have "is_code c" using r generateCode_is_code by (rule retryCode_is_code)
    moreover have "getShareCode db c = None" using r n by (rule retryCode_result)
    moreover have "issueFresh rnd db payload updated =
        (Issued c updated, saveShareCode db c payload)"
      using r n by (simp add: issueFresh_def)
    ultimately show thesis by (rule issued)
  qed
qed

text \<open>
  The loop of \<open>route.ts\<close>: it walks through any number of colliding codes, and it returns
  nothing when every code collides.
\<close>

lemma freshCode_collide:
  assumes "\<forall>i < n. map_of store (candidate rnd (k + i)) \<noteq> None"
  shows "freshCode store rnd (8 * (k + 1)) (candidate rnd k) =
         freshCode store rnd (8 * (k + n + 1)) (candidate rnd (k + n))"
  using assms
proof (induction n arbitrary: k)
  case 0
  then show ?case by simp
next
  case (Suc n)
  have first: "map_of store (candidate rnd k) \<noteq> None"
    using Suc.prems [rule_format, of 0] by simp
  have rest: "\<forall>i < n. map_of store (candidate rnd (Suc k + i)) \<noteq> None"
    using Suc.prems by (metis Suc_less_eq add_Suc_right add_Suc_shift)
  have "freshCode store rnd (8 * (k + 1)) (candidate rnd k) =
      freshCode store rnd (8 * (Suc k + 1)) (candidate rnd (Suc k))"
    using first by (subst freshCode.simps) (simp add: candidate_def algebra_simps)
  also have "\<dots> = freshCode store rnd (8 * (Suc k + n + 1)) (candidate rnd (Suc k + n))"
    using rest by (intro Suc.IH)
  finally show ?case by simp
qed

lemma freshCode_free:
  assumes "\<forall>i < n. map_of store (candidate rnd i) \<noteq> None"
    and "map_of store (candidate rnd n) = None"
  shows "freshCode store rnd 8 (generateCode rnd 0) = Some (candidate rnd n)"
proof -
  have "freshCode store rnd 8 (generateCode rnd 0) =
      freshCode store rnd (8 * (0 + n + 1)) (candidate rnd (0 + n))"
    using freshCode_collide [of n store rnd 0] assms(1) by (simp add: candidate_def)
  also have "\<dots> = Some (candidate rnd n)"
    using assms(2) by (subst freshCode.simps) simp
  finally show ?thesis .
qed

lemma freshCode_never:
  assumes "\<forall>i. map_of store (candidate rnd i) \<noteq> None"
  shows "freshCode store rnd 8 (generateCode rnd 0) = None"
proof (rule ccontr)
  assume "freshCode store rnd 8 (generateCode rnd 0) \<noteq> None"
  then obtain y where y: "freshCode store rnd 8 (generateCode rnd 0) = Some y" by auto
  define P where "P = (\<lambda>s r pos code (z::string).
     \<not> (s = store \<and> r = rnd \<and> (\<exists>k. pos = 8 * (k + 1) \<and> code = candidate rnd k)))"
  have "P store rnd 8 (generateCode rnd 0) y"
  proof (rule freshCode.raw_induct [where P = P, OF _ y])
    fix f s r pos code z
    assume IH: "\<And>s r pos code z. f s r pos code = Some z \<Longrightarrow> P s r pos code z"
      and step: "(if map_of s code \<noteq> None then f s r (pos + 8) (generateCode r pos)
                  else Some code) = Some z"
    show "P s r pos code z"
      unfolding P_def
    proof
      assume a: "s = store \<and> r = rnd \<and> (\<exists>k. pos = 8 * (k + 1) \<and> code = candidate rnd k)"
      then obtain k where k: "pos = 8 * (k + 1)" "code = candidate rnd k" by blast
      have "map_of store code \<noteq> None" using assms k by simp
      with step a have "f store rnd (pos + 8) (generateCode rnd pos) = Some z" by simp
      from IH [OF this] have "\<not> (\<exists>k'. pos + 8 = 8 * (k' + 1) \<and> generateCode rnd pos = candidate rnd k')"
        by (simp add: P_def)
      moreover have "pos + 8 = 8 * (Suc k + 1) \<and> generateCode rnd pos = candidate rnd (Suc k)"
        using k by (simp add: candidate_def)
      ultimately show False by blast
    qed
  qed
  moreover have "(8::nat) = 8 * (0 + 1) \<and> generateCode rnd 0 = candidate rnd 0"
    by (simp add: candidate_def)
  ultimately show False unfolding P_def by blast
qed

lemma freshCode_unused:
  assumes "freshCode store rnd pos code = Some c"
  shows "map_of store c = None"
proof (rule freshCode.raw_induct [where P = "\<lambda>s r p code z. map_of s z = None", OF _ assms])
  fix f s r p code z
  assume IH: "\<And>s r p code z. f s r p code = Some z \<Longrightarrow> map_of s z = None"
    and step: "(if map_of s code \<noteq> None then f s r (p + 8) (generateCode r p)
                else Some code) = Some z"
  show "map_of s z = None"
  proof (cases "map_of s code \<noteq> None")
    case True
    with step have "f s r (p + 8) (generateCode r p) = Some z" by simp
    then show ?thesis by (rule IH)
  next
    case False
    with step show ?thesis by simp
  qed
qed

text \<open>Writing to the file store and to the table.\<close>

lemma set_insert_index: "set (insert_index n e ps) = insert e (set ps)"
  by (induction ps) (auto split: option.splits)

lemma find_insert_index:
  "P e \<Longrightarrow> \<forall>p \<in> set ps. \<not> P p \<Longrightarrow> find P (insert_index n e ps) = Some e"
  by (induction ps) (auto split: option.splits)

lemma map_of_insert_index:
  "fst e \<notin> fst ` set ps \<Longrightarrow> map_of (insert_index n e ps) (fst e) = Some (snd e)"
  by (induction ps) (auto split: option.splits)

lemma map_of_store_put: "map_of (store_put k v store) k = Some v"
proof (cases "k \<in> fst ` set store")
  case True
  have "k \<in> fst ` set ps \<Longrightarrow>
      map_of (map (\<lambda>p. if fst p = k then (k, v) else p) ps) k = Some v" for ps
    by (induction ps) auto
  with True show ?thesis by (simp add: store_put_def)
next
  case False
  then have "map_of store k = None" by (simp add: map_of_eq_None_iff)
  moreover have "map_of (insert_index n (k, v) store) k = Some v" for n
    using map_of_insert_index [of "(k, v)" store n] False by simp
  ultimately show ?thesis
    using False by (simp add: store_put_def map_add_def split: option.split)
qed

lemma find_store_put_fresh:
  assumes "contentHash v = h" and "\<forall>p \<in> set store. contentHash (snd p) \<noteq> h"
    and "map_of store k = None"
  shows "find (\<lambda>e. contentHash (snd e) = h) (store_put k v store) = Some (k, v)"
proof -
  have fresh: "k \<notin> fst ` set store" using assms(3) by (simp add: map_of_eq_None_iff)
  have "find (\<lambda>e. contentHash (snd e) = h) (store @ [(k, v)]) = Some (k, v)"
    using assms(1,2) by (induction store) auto
  moreover have "find (\<lambda>e. contentHash (snd e) = h) (insert_index n (k, v) store) = Some (k, v)"
    for n
    using assms(1,2) by (intro find_insert_index) simp_all
  ultimately show ?thesis using fresh by (simp add: store_put_def split: option.split)
qed

lemma getShareCode_saveShareCode_same:
  "getShareCode (saveShareCode db code payload) code = Some payload"
proof -
  have "map_of (filter (\<lambda>row. fst row \<noteq> k) db) k = None" for k
    by (induction db) auto
  then show ?thesis
    by (simp add: getShareCode_def saveShareCode_def map_add_def)
qed

lemma getShareCode_saveShareCode_other:
  "toUpperCase code' \<noteq> toUpperCase code \<Longrightarrow>
   getShareCode (saveShareCode db code payload) code' = getShareCode db code'"
proof -
  assume ne: "toUpperCase code' \<noteq> toUpperCase code"
  have "map_of (filter (\<lambda>row. fst row \<noteq> k) db) k' = map_of db k'" if "k' \<noteq> k" for k k'
    using that by (induction db) auto
  with ne show ?thesis
    by (simp add: getShareCode_def saveShareCode_def map_add_def split: option.split)
qed

lemma saveShareCode_ids:
  "\<forall>row \<in> set db. fst row \<noteq> [] \<Longrightarrow> code \<noteq> [] \<Longrightarrow>
   \<forall>row \<in> set (saveShareCode db code payload). fst row \<noteq> []"
  by (auto simp: saveShareCode_def toUpperCase_empty)

lemma issueFresh_ids:
  "\<forall>row \<in> set db. fst row \<noteq> [] \<Longrightarrow>
   \<forall>row \<in> set (snd (issueFresh rnd db payload updated)). fst row \<noteq> []"
proof (cases rule: issueFresh_cases [of rnd db payload updated])
  case exhausted
  assume "\<forall>row \<in> set db. fst row \<noteq> []"
  with exhausted show ?thesis by simp
next
  case (issued c)
  assume "\<forall>row \<in> set db. fst row \<noteq> []"
  then have "\<forall>row \<in> set (saveShareCode db c payload). fst row \<noteq> []"
    using is_code_nonempty [OF issued(1)] by (rule saveShareCode_ids)
  with issued(3) show ?thesis by simp
qed

lemma POST_db_ids:
  assumes "\<forall>row \<in> set db. fst row \<noteq> []"
  shows "\<forall>row \<in> set (snd (POST_db digest now rnd db body)). fst row \<noteq> []"
    and "\<forall>row \<in> set (snd (POST_db_reissue digest now rnd db body)). fst row \<noteq> []"
  using assms issueFresh_ids [OF assms]
  by (auto simp: POST_db_def POST_db_reissue_def Let_def requestedCode_def
      saveShareCode_def toUpperCase_empty
      split: option.splits if_splits)

lemma find_hash_Some:
  "\<exists>e \<in> set rows. contentHash (snd e) = h \<Longrightarrow>
   \<exists>e \<in> set rows. contentHash (snd e) = h \<and> find (\<lambda>e. contentHash (snd e) = h) rows = Some e"
  by (induction rows) auto

lemma findShareCodeByHash_Some:
  assumes "\<forall>row \<in> set db. fst row \<noteq> []" and "\<exists>row \<in> set db. contentHash (snd row) = h"
  shows "\<exists>row \<in> set db. contentHash (snd row) = h \<and> findShareCodeByHash db h = Some (fst row)"
proof -
  from find_hash_Some [OF assms(2)] obtain e where e: "e \<in> set db" "contentHash (snd e) = h"
    "find (\<lambda>e. contentHash (snd e) = h) db = Some e" by blast
  with assms(1) have "findShareCodeByHash db h = Some (fst e)"
    by (simp add: findShareCodeByHash_def)
  with e show ?thesis by blast
qed

lemma findShareCodeByHash_None:
  assumes "\<forall>row \<in> set db. fst row \<noteq> []" and "findShareCodeByHash db h = None"
  shows "\<forall>row \<in> set db. contentHash (snd row) \<noteq> h"
proof (rule ccontr)
  assume "\<not> (\<forall>row \<in> set db. contentHash (snd row) \<noteq> h)"
  then have "\<exists>row \<in> set db. contentHash (snd row) = h" by blast
  from findShareCodeByHash_Some [OF assms(1) this] assms(2) show False by auto
qed

lemma findShareCodeByHash_saved:
  assumes "\<forall>row \<in> set db. contentHash (snd row) \<noteq> h" and "contentHash payload = h"
    and "is_code c"
  shows "findShareCodeByHash (saveShareCode db c payload) h = Some c"
proof -
  have "find (\<lambda>row. contentHash (snd row) = h) (filter P db @ [(c, payload)]) = Some (c, payload)"
    for P
    using assms(1,2) by (induction db) auto
  then show ?thesis
    using assms(3) by (simp add: findShareCodeByHash_def saveShareCode_def is_code_upper is_code_nonempty)
qed

lemma requestedCode_Some:
  "body_code body = Some code \<Longrightarrow> toUpperCase code \<noteq> [] \<Longrightarrow>
   requestedCode body = Some (toUpperCase code)"
  by (simp add: requestedCode_def)

lemma requestedCode_None: "body_code body = None \<Longrightarrow> requestedCode body = None"
  by (simp add: requestedCode_def)

lemma contentHash_newPayload: "contentHash (newPayload target loader items hash now) = hash"
  by (simp add: newPayload_def)

text \<open>The concrete inputs.\<close>

lemma candidate_zeros_then_ones:
  "candidate (zeros_then_ones m) k = (if k < m then ''AAAAAAAA'' else ''BBBBBBBB'')"
  by (simp add: candidate_def generateCode_def zeros_then_ones_def alphabet_def upt_rec)

lemma candidate_all_zeros: "candidate all_zeros k = ''AAAAAAAA''"
  by (simp add: candidate_def generateCode_def all_zeros_def alphabet_def upt_rec)

lemma upper_AAAAAAAA: "toUpperCase ''aaaaaaaa'' = ''AAAAAAAA''"
  by code_simp

lemma upper_codes: "toUpperCase ''AAAAAAAA'' = ''AAAAAAAA''" "toUpperCase ''BBBBBBBB'' = ''BBBBBBBB''"
  by code_simp+

lemma array_index_BBBBBBBB: "array_index ''BBBBBBBB'' = None"
  by code_simp

lemma share_body_valid:
  "body_items (share_body code target) = Some [sodium_item]"
  "body_targetVersion (share_body code target) = Some target"
  "body_loader (share_body code target) = Some ''fabric''"
  "body_code (share_body code target) = code"
  by (simp_all add: share_body_def)

lemma share_payload_hash:
  "contentHash (share_payload target now) = computeHash toy_digest target ''fabric'' [sodium_item]"
  by (simp add: share_payload_def newPayload_def)

lemma share_hash_changed:
  "contentHash (share_payload ''1.20.1'' now) \<noteq> computeHash toy_digest ''1.21.1'' ''fabric'' [sodium_item]"
  by (simp add: share_payload_def newPayload_def computeHash_def toy_digest_def)

lemma one_code_rows:
  "map_of one_code ''AAAAAAAA'' = Some (share_payload ''1.20.1'' ''2026-01-01T00:00:00.000Z'')"
  "map_of one_code ''BBBBBBBB'' = None"
  "getShareCode one_code ''AAAAAAAA'' = Some (share_payload ''1.20.1'' ''2026-01-01T00:00:00.000Z'')"
  "getShareCode one_code ''BBBBBBBB'' = None"
  by (simp_all add: one_code_def getShareCode_def upper_codes)

lemma one_code_other_hash:
  "\<forall>row \<in> set one_code.
     contentHash (snd row) \<noteq> computeHash toy_digest ''1.21.1'' ''fabric'' [sodium_item]"
  using share_hash_changed by (simp add: one_code_def)

text \<open>
  Claim C7, as amended. When \<open>POST\<close> gets a code whose stored fingerprint differs from the
  fingerprint of the submitted state: the handler of \<open>route.ts\<close> and the first database
  handler store the new state under that code, in upper case, and answer with that code
  and \<open>updated = true\<close>; the second database handler leaves the record of that code as it
  is and answers with the code the table holds for the new fingerprint and
  \<open>updated = false\<close>, or with another, freshly generated code and \<open>updated = true\<close>, or
  with the generation error.
\<close>

theorem issue_changed_content:
  assumes "body_items body = Some items"
    and "body_targetVersion body = Some target" and "target \<noteq> []"
    and "body_loader body = Some loader" and "loader \<noteq> []"
    and "body_code body = Some code" and "toUpperCase code \<noteq> []"
    and "hash = computeHash digest target loader items"
    and "payload = newPayload target loader items hash now"
  shows
    "(map_of store (toUpperCase code) = Some p \<and> contentHash p \<noteq> hash \<longrightarrow>
        POST_file digest now rnd store body =
          Some (Issued (toUpperCase code) True, store_put (toUpperCase code) payload store) \<and>
        map_of (store_put (toUpperCase code) payload store) (toUpperCase code) = Some payload) \<and>
     (getShareCode db (toUpperCase code) = Some p \<and> contentHash p \<noteq> hash \<longrightarrow>
        POST_db digest now rnd db body =
          (Issued (toUpperCase code) True, saveShareCode db (toUpperCase code) payload) \<and>
        getShareCode (saveShareCode db (toUpperCase code) payload) (toUpperCase code) =
          Some payload) \<and>
     (getShareCode db (toUpperCase code) = Some p \<and> contentHash p \<noteq> hash \<longrightarrow>
        (case POST_db_reissue digest now rnd db body of
           (response, db') \<Rightarrow>
             getShareCode db' (toUpperCase code) = Some p \<and>
             (response = FailedToGenerate \<and> db' = db \<or>
              (\<exists>c. response = Issued c False \<and> db' = db \<and>
                   findShareCodeByHash db hash = Some c) \<or>
              (\<exists>c. response = Issued c True \<and> c \<noteq> toUpperCase code \<and>
                   getShareCode db c = None \<and> db' = saveShareCode db c payload))))"
proof -
  note rc = requestedCode_Some [OF assms(6,7)]
  have on_file: "POST_file digest now rnd store body =
      Some (Issued (toUpperCase code) True, store_put (toUpperCase code) payload store)"
    if "map_of store (toUpperCase code) = Some p" "contentHash p \<noteq> hash"
    using that assms(1-5,8,9) rc by (simp add: POST_file_def Let_def)
  have on_db: "POST_db digest now rnd db body =
      (Issued (toUpperCase code) True, saveShareCode db (toUpperCase code) payload)"
    if "getShareCode db (toUpperCase code) = Some p" "contentHash p \<noteq> hash"
    using that assms(1-5,8,9) rc by (simp add: POST_db_def Let_def)
  have reissue: "case POST_db_reissue digest now rnd db body of
           (response, db') \<Rightarrow>
             getShareCode db' (toUpperCase code) = Some p \<and>
             (response = FailedToGenerate \<and> db' = db \<or>
              (\<exists>c. response = Issued c False \<and> db' = db \<and>
                   findShareCodeByHash db hash = Some c) \<or>
              (\<exists>c. response = Issued c True \<and> c \<noteq> toUpperCase code \<and>
                   getShareCode db c = None \<and> db' = saveShareCode db c payload))"
    if p: "getShareCode db (toUpperCase code) = Some p" "contentHash p \<noteq> hash"
  proof (cases "findShareCodeByHash db hash")
    case (Some c)
    then have "POST_db_reissue digest now rnd db body = (Issued c False, db)"
      using p assms(1-5,8,9) rc by (simp add: POST_db_reissue_def Let_def)
    with Some p show ?thesis by simp
  next
    case None
    then have post: "POST_db_reissue digest now rnd db body = issueFresh rnd db payload True"
      using p assms(1-5,8,9) rc by (simp add: POST_db_reissue_def Let_def)
    show ?thesis
    proof (cases rule: issueFresh_cases [of rnd db payload True])
      case exhausted
      with post p show ?thesis by simp
    next
      case (issued c)
      have ne: "toUpperCase (toUpperCase code) \<noteq> toUpperCase c"
        using issued(2) p(1) by (auto simp: getShareCode_def)
      then have "c \<noteq> toUpperCase code" by auto
      moreover have "getShareCode (saveShareCode db c payload) (toUpperCase code) = Some p"
        using ne p(1) by (simp add: getShareCode_saveShareCode_other)
      ultimately show ?thesis using post issued by simp
    qed
  qed
  show ?thesis
    using on_file on_db reissue
    by (simp add: map_of_store_put getShareCode_saveShareCode_same)
qed

theorem issue_changed_content_witness:
  "toUpperCase ''aaaaaaaa'' = ''AAAAAAAA'' \<and>
   map_of one_code ''AAAAAAAA'' = Some (share_payload ''1.20.1'' ''2026-01-01T00:00:00.000Z'') \<and>
   contentHash (share_payload ''1.20.1'' ''2026-01-01T00:00:00.000Z'') \<noteq>
     computeHash toy_digest ''1.21.1'' ''fabric'' [sodium_item] \<and>
   POST_file toy_digest ''2026-02-02T00:00:00.000Z'' (zeros_then_ones 1) one_code
       (share_body (Some ''aaaaaaaa'') ''1.21.1'') =
     Some (Issued ''AAAAAAAA'' True,
           [(''AAAAAAAA'', share_payload ''1.21.1'' ''2026-02-02T00:00:00.000Z'')]) \<and>
   POST_db toy_digest ''2026-02-02T00:00:00.000Z'' (zeros_then_ones 1) one_code
       (share_body (Some ''aaaaaaaa'') ''1.21.1'') =
     (Issued ''AAAAAAAA'' True,
      [(''AAAAAAAA'', share_payload ''1.21.1'' ''2026-02-02T00:00:00.000Z'')]) \<and>
   getShareCode (snd (POST_db_reissue toy_digest ''2026-02-02T00:00:00.000Z'' (zeros_then_ones 1)
       one_code (share_body (Some ''aaaaaaaa'') ''1.21.1''))) ''AAAAAAAA'' =
     Some (share_payload ''1.20.1'' ''2026-01-01T00:00:00.000Z'')"
proof -
  let ?body = "share_body (Some ''aaaaaaaa'') ''1.21.1''"
  let ?old = "share_payload ''1.20.1'' ''2026-01-01T00:00:00.000Z''"
  let ?new = "share_payload ''1.21.1'' ''2026-02-02T00:00:00.000Z''"
  let ?hash = "computeHash toy_digest ''1.21.1'' ''fabric'' [sodium_item]"
  have stored: "map_of one_code ''AAAAAAAA'' = Some ?old"
    by (simp add: one_code_def)
  have row: "getShareCode one_code ''AAAAAAAA'' = Some ?old"
    by (simp add: getShareCode_def one_code_def upper_codes)
  have changed: "contentHash ?old \<noteq> ?hash" by (rule share_hash_changed)
  note t = issue_changed_content [of ?body "[sodium_item]" "''1.21.1''" "''fabric''" "''aaaaaaaa''"
      ?hash toy_digest ?new "''2026-02-02T00:00:00.000Z''" one_code ?old "zeros_then_ones 1" one_code,
      unfolded upper_AAAAAAAA]
  have t': "(map_of one_code ''AAAAAAAA'' = Some ?old \<and> contentHash ?old \<noteq> ?hash \<longrightarrow>
        POST_file toy_digest ''2026-02-02T00:00:00.000Z'' (zeros_then_ones 1) one_code ?body =
          Some (Issued ''AAAAAAAA'' True, store_put ''AAAAAAAA'' ?new one_code) \<and>
        map_of (store_put ''AAAAAAAA'' ?new one_code) ''AAAAAAAA'' = Some ?new) \<and>
     (getShareCode one_code ''AAAAAAAA'' = Some ?old \<and> contentHash ?old \<noteq> ?hash \<longrightarrow>
        POST_db toy_digest ''2026-02-02T00:00:00.000Z'' (zeros_then_ones 1) one_code ?body =
          (Issued ''AAAAAAAA'' True, saveShareCode one_code ''AAAAAAAA'' ?new) \<and>
        getShareCode (saveShareCode one_code ''AAAAAAAA'' ?new) ''AAAAAAAA'' = Some ?new) \<and>
     (getShareCode one_code ''AAAAAAAA'' = Some ?old \<and> contentHash ?old \<noteq> ?hash \<longrightarrow>
        (case POST_db_reissue toy_digest ''2026-02-02T00:00:00.000Z'' (zeros_then_ones 1)
                one_code ?body of
           (response, db') \<Rightarrow>
             getShareCode db' ''AAAAAAAA'' = Some ?old \<and>
             (response = FailedToGenerate \<and> db' = one_code \<or>
              (\<exists>c. response = Issued c False \<and> db' = one_code \<and>
                   findShareCodeByHash one_code ?hash = Some c) \<or>
              (\<exists>c. response = Issued c True \<and> c \<noteq> ''AAAAAAAA'' \<and>
                   getShareCode one_code c = None \<and> db' = saveShareCode one_code c ?new))))"
    by (rule t) (simp_all add: share_body_def share_payload_def)
  have a: "POST_file toy_digest ''2026-02-02T00:00:00.000Z'' (zeros_then_ones 1) one_code ?body =
      Some (Issued ''AAAAAAAA'' True, [(''AAAAAAAA'', ?new)])"
    using t' [THEN conjunct1] stored changed by (simp add: store_put_def one_code_def)
  have b: "POST_db toy_digest ''2026-02-02T00:00:00.000Z'' (zeros_then_ones 1) one_code ?body =
      (Issued ''AAAAAAAA'' True, [(''AAAAAAAA'', ?new)])"
    using t' [THEN conjunct2, THEN conjunct1] row changed
    by (simp add: saveShareCode_def one_code_def upper_codes)
  have c: "getShareCode (snd (POST_db_reissue toy_digest ''2026-02-02T00:00:00.000Z''
      (zeros_then_ones 1) one_code ?body)) ''AAAAAAAA'' = Some ?old"
    using t' [THEN conjunct2, THEN conjunct2] row changed
    by (cases "POST_db_reissue toy_digest ''2026-02-02T00:00:00.000Z''
      (zeros_then_ones 1) one_code ?body") simp
  show ?thesis using upper_AAAAAAAA stored changed a b c by (intro conjI)
qed

text \<open>
  The claim as stated fails on the second database handler: the code \<open>AAAAAAAA\<close> is
  submitted with changed content, the answer is the new code \<open>BBBBBBBB\<close>, and the record
  of \<open>AAAAAAAA\<close> is still the first row of the table.
\<close>

theorem reissue_returns_other_code_counterexample:
  "POST_db_reissue toy_digest ''2026-02-02T00:00:00.000Z'' (zeros_then_ones 1) one_code
     (share_body (Some ''AAAAAAAA'') ''1.21.1'') =
   (Issued ''BBBBBBBB'' True,
    one_code @ [(''BBBBBBBB'', share_payload ''1.21.1'' ''2026-02-02T00:00:00.000Z'')])"
proof -
  let ?rnd = "zeros_then_ones 1"
  let ?new = "share_payload ''1.21.1'' ''2026-02-02T00:00:00.000Z''"
  have "issueFresh ?rnd one_code ?new True =
      (Issued (candidate ?rnd 1) True, saveShareCode one_code (candidate ?rnd 1) ?new)"
    by (rule issueFresh_free)
      (simp_all add: candidate_zeros_then_ones getShareCode_def one_code_def upper_codes)
  then have fresh: "issueFresh ?rnd one_code ?new True =
      (Issued ''BBBBBBBB'' True, one_code @ [(''BBBBBBBB'', ?new)])"
    by (simp add: candidate_zeros_then_ones saveShareCode_def upper_codes one_code_def)
  have "findShareCodeByHash one_code (computeHash toy_digest ''1.21.1'' ''fabric'' [sodium_item]) = None"
    using share_hash_changed by (simp add: findShareCodeByHash_def one_code_def)
  then show ?thesis
    using fresh share_hash_changed
    by (simp add: POST_db_reissue_def share_body_def requestedCode_def upper_codes
        getShareCode_def one_code_def share_payload_def Let_def)
qed

text \<open>
  After a request without a code that was answered with a code, the table holds that code
  for the fingerprint of the request.
\<close>

lemma POST_db_twice:
  assumes valid: "body_items body = Some items" "body_targetVersion body = Some target"
      "target \<noteq> []" "body_loader body = Some loader" "loader \<noteq> []" "body_code body = None"
    and wf: "\<forall>row \<in> set db. fst row \<noteq> []"
    and fresh: "\<And>payload. issue db payload = issueFresh rnd db payload False"
    and first: "(case findShareCodeByHash db (computeHash digest target loader items) of
                   Some c \<Rightarrow> (Issued c False, db)
                 | None \<Rightarrow> issue db (newPayload target loader items
                     (computeHash digest target loader items) now)) = (Issued c u, db')"
  shows "findShareCodeByHash db' (computeHash digest target loader items) = Some c"
proof (cases "findShareCodeByHash db (computeHash digest target loader items)")
  case (Some c0)
  with first show ?thesis by simp
next
  case None
  let ?h = "computeHash digest target loader items"
  let ?payload = "newPayload target loader items ?h now"
  from None first fresh have out: "issueFresh rnd db ?payload False = (Issued c u, db')" by simp
  have nohash: "\<forall>row \<in> set db. contentHash (snd row) \<noteq> ?h"
    using wf None by (rule findShareCodeByHash_None)
  show ?thesis
  proof (cases rule: issueFresh_cases [of rnd db ?payload False])
    case exhausted
    with out show ?thesis by simp
  next
    case (issued c')
    with out have "c' = c" "db' = saveShareCode db c ?payload" by auto
    with issued(1) nohash show ?thesis
      by (simp add: findShareCodeByHash_saved contentHash_newPayload)
  qed
qed

text \<open>
  Claim C8. For a valid body without a code: when a stored record has the fingerprint of
  the submitted state, each of the three handlers answers with the code of such a record
  and \<open>updated = false\<close> and leaves the store as it is; and when a first request was
  answered with a code, a second request with the same content, whatever the time and the
  random bytes, is answered with the same code and \<open>updated = false\<close> and leaves the store
  as the first request left it. For the table the rows are taken to have non-empty ids,
  which the handlers preserve (lemma \<open>POST_db_ids\<close>).
\<close>

theorem issue_same_content:
  assumes "body_items body = Some items"
    and "body_targetVersion body = Some target" and "target \<noteq> []"
    and "body_loader body = Some loader" and "loader \<noteq> []"
    and "body_code body = None"
    and "hash = computeHash digest target loader items"
  shows
    "((\<exists>e \<in> set store. contentHash (snd e) = hash) \<longrightarrow>
        (\<exists>e \<in> set store. contentHash (snd e) = hash \<and>
           POST_file digest now rnd store body = Some (Issued (fst e) False, store))) \<and>
     ((\<forall>row \<in> set db. fst row \<noteq> []) \<and> (\<exists>row \<in> set db. contentHash (snd row) = hash) \<longrightarrow>
        (\<exists>row \<in> set db. contentHash (snd row) = hash \<and>
           POST_db digest now rnd db body = (Issued (fst row) False, db) \<and>
           POST_db_reissue digest now rnd db body = (Issued (fst row) False, db))) \<and>
     (POST_file digest now rnd store body = Some (Issued c u, store') \<longrightarrow>
        POST_file digest now' rnd' store' body = Some (Issued c False, store')) \<and>
     ((\<forall>row \<in> set db. fst row \<noteq> []) \<and> POST_db digest now rnd db body = (Issued c u, db') \<longrightarrow>
        POST_db digest now' rnd' db' body = (Issued c False, db')) \<and>
     ((\<forall>row \<in> set db. fst row \<noteq> []) \<and>
      POST_db_reissue digest now rnd db body = (Issued c u, db') \<longrightarrow>
        POST_db_reissue digest now' rnd' db' body = (Issued c False, db'))"
proof -
  note rc = requestedCode_None [OF assms(6)]
  note valid = assms(1-5)
  let ?h = "computeHash digest target loader items"
  let ?payload = "newPayload target loader items ?h now"
  have file_unfold: "POST_file digest t r s body =
      (case find (\<lambda>e. contentHash (snd e) = ?h) s of
         Some e \<Rightarrow> Some (Issued (fst e) False, s)
       | None \<Rightarrow>
           (case freshCode s r 8 (generateCode r 0) of
              None \<Rightarrow> None
            | Some code \<Rightarrow> Some (Issued code False,
                store_put code (newPayload target loader items ?h t) s)))" for t r s
    using valid rc by (simp add: POST_file_def Let_def)
  have db_unfold: "POST_db digest t r d body =
      (case findShareCodeByHash d ?h of
         Some c \<Rightarrow> (Issued c False, d)
       | None \<Rightarrow> issueFresh r d (newPayload target loader items ?h t) False)" for t r d
    using valid rc by (simp add: POST_db_def Let_def)
  have re_unfold: "POST_db_reissue digest t r d body =
      (case findShareCodeByHash d ?h of
         Some c \<Rightarrow> (Issued c False, d)
       | None \<Rightarrow> issueFresh r d (newPayload target loader items ?h t) False)" for t r d
    using valid rc by (simp add: POST_db_reissue_def Let_def split: option.split)
  have a: "\<exists>e \<in> set store. contentHash (snd e) = ?h \<and>
           POST_file digest now rnd store body = Some (Issued (fst e) False, store)"
    if "\<exists>e \<in> set store. contentHash (snd e) = ?h"
    using find_hash_Some [OF that] by (auto simp: file_unfold)
  have b: "\<exists>row \<in> set db. contentHash (snd row) = ?h \<and>
           POST_db digest now rnd db body = (Issued (fst row) False, db) \<and>
           POST_db_reissue digest now rnd db body = (Issued (fst row) False, db)"
    if "\<forall>row \<in> set db. fst row \<noteq> []" "\<exists>row \<in> set db. contentHash (snd row) = ?h"
    using findShareCodeByHash_Some [OF that] by (auto simp: db_unfold re_unfold)
  have c: "POST_file digest now' rnd' store' body = Some (Issued c False, store')"
    if first: "POST_file digest now rnd store body = Some (Issued c u, store')"
  proof (cases "find (\<lambda>e. contentHash (snd e) = ?h) store")
    case (Some e)
    with first have "store' = store" "c = fst e" by (simp_all add: file_unfold)
    with Some show ?thesis by (simp add: file_unfold)
  next
    case None
    with first obtain code where code: "freshCode store rnd 8 (generateCode rnd 0) = Some code"
      "c = code" "store' = store_put code ?payload store"
      by (auto simp: file_unfold split: option.splits)
    have "map_of store code = None" using code(1) by (rule freshCode_unused)
    moreover have "\<forall>p \<in> set store. contentHash (snd p) \<noteq> ?h"
      using None by (auto simp: find_None_iff)
    ultimately have "find (\<lambda>e. contentHash (snd e) = ?h) store' = Some (code, ?payload)"
      unfolding code(3) by (intro find_store_put_fresh) (simp_all add: contentHash_newPayload)
    with code(2) show ?thesis by (simp add: file_unfold)
  qed
  have d: "POST_db digest now' rnd' db' body = (Issued c False, db')"
    if "\<forall>row \<in> set db. fst row \<noteq> []" "POST_db digest now rnd db body = (Issued c u, db')"
  proof -
    have "findShareCodeByHash db' (computeHash digest target loader items) = Some c"
      using valid assms(6) that(1)
    proof (rule POST_db_twice [where issue = "\<lambda>d p. issueFresh rnd d p False"])
      show "(case findShareCodeByHash db (computeHash digest target loader items) of
               Some c \<Rightarrow> (Issued c False, db)
             | None \<Rightarrow> issueFresh rnd db (newPayload target loader items
                 (computeHash digest target loader items) now) False) = (Issued c u, db')"
        using that(2) by (simp add: db_unfold)
    qed simp
    then show ?thesis by (simp add: db_unfold)
  qed
  have e: "POST_db_reissue digest now' rnd' db' body = (Issued c False, db')"
    if "\<forall>row \<in> set db. fst row \<noteq> []"
      "POST_db_reissue digest now rnd db body = (Issued c u, db')"
  proof -
    have "findShareCodeByHash db' (computeHash digest target loader items) = Some c"
      using valid assms(6) that(1)
    proof (rule POST_db_twice [where issue = "\<lambda>d p. issueFresh rnd d p False"])
      show "(case findShareCodeByHash db (computeHash digest target loader items) of
               Some c \<Rightarrow> (Issued c False, db)
             | None \<Rightarrow> issueFresh rnd db (newPayload target loader items
                 (computeHash digest target loader items) now) False) = (Issued c u, db')"
        using that(2) by (simp add: re_unfold)
    qed simp
    then show ?thesis by (simp add: re_unfold)
  qed
  show ?thesis unfolding assms(7) using a b c d e by blast
qed

theorem issue_same_content_witness:
  "list_ex (\<lambda>e. contentHash (snd e) = computeHash toy_digest ''1.20.1'' ''fabric'' [sodium_item])
     one_code \<and>
   list_all (\<lambda>row. fst row \<noteq> []) one_code \<and>
   POST_file toy_digest ''2026-02-02T00:00:00.000Z'' all_zeros one_code
       (share_body None ''1.20.1'') = Some (Issued ''AAAAAAAA'' False, one_code) \<and>
   POST_db toy_digest ''2026-02-02T00:00:00.000Z'' all_zeros one_code
       (share_body None ''1.20.1'') = (Issued ''AAAAAAAA'' False, one_code) \<and>
   POST_db_reissue toy_digest ''2026-02-02T00:00:00.000Z'' all_zeros one_code
       (share_body None ''1.20.1'') = (Issued ''AAAAAAAA'' False, one_code) \<and>
   POST_file toy_digest ''2026-01-01T00:00:00.000Z'' all_zeros []
       (share_body None ''1.20.1'') = Some (Issued ''AAAAAAAA'' False, one_code) \<and>
   POST_file toy_digest ''2026-02-02T00:00:00.000Z'' (zeros_then_ones 1) one_code
       (share_body None ''1.20.1'') = Some (Issued ''AAAAAAAA'' False, one_code) \<and>
   POST_db toy_digest ''2026-01-01T00:00:00.000Z'' all_zeros []
       (share_body None ''1.20.1'') = (Issued ''AAAAAAAA'' False, one_code) \<and>
   POST_db toy_digest ''2026-02-02T00:00:00.000Z'' (zeros_then_ones 1) one_code
       (share_body None ''1.20.1'') = (Issued ''AAAAAAAA'' False, one_code) \<and>
   POST_db_reissue toy_digest ''2026-01-01T00:00:00.000Z'' all_zeros []
       (share_body None ''1.20.1'') = (Issued ''AAAAAAAA'' False, one_code) \<and>
   POST_db_reissue toy_digest ''2026-02-02T00:00:00.000Z'' (zeros_then_ones 1) one_code
       (share_body None ''1.20.1'') = (Issued ''AAAAAAAA'' False, one_code)"
proof -
  let ?body = "share_body None ''1.20.1''"
  let ?h = "computeHash toy_digest ''1.20.1'' ''fabric'' [sodium_item]"
  let ?t1 = "''2026-01-01T00:00:00.000Z''"
  let ?t2 = "''2026-02-02T00:00:00.000Z''"
  note t = issue_same_content [of ?body "[sodium_item]" "''1.20.1''" "''fabric''" ?h toy_digest,
      OF share_body_valid(1,2) _ share_body_valid(3) _ share_body_valid(4) refl]
  have stored: "\<exists>e \<in> set one_code. contentHash (snd e) = ?h"
    by (simp add: one_code_def share_payload_hash)
  have ids: "\<forall>row \<in> set one_code. fst row \<noteq> []"
    by (simp add: one_code_def)
  have no_rows: "\<forall>row \<in> set ([] :: (string \<times> StoredPayload) list). fst row \<noteq> []"
    by simp
  have a: "POST_file toy_digest ?t2 all_zeros one_code ?body =
      Some (Issued ''AAAAAAAA'' False, one_code)"
    using t [where store = one_code and now = ?t2 and rnd = all_zeros, THEN conjunct1] stored by (simp add: one_code_def)
  have b: "POST_db toy_digest ?t2 all_zeros one_code ?body = (Issued ''AAAAAAAA'' False, one_code) \<and>
      POST_db_reissue toy_digest ?t2 all_zeros one_code ?body =
        (Issued ''AAAAAAAA'' False, one_code)"
    using t [where db = one_code and now = ?t2 and rnd = all_zeros, THEN conjunct2, THEN conjunct1]
      stored ids
    by (simp add: one_code_def)
  have put: "store_put ''AAAAAAAA'' (share_payload ''1.20.1'' ?t1) [] = one_code"
    by (simp add: store_put_def one_code_def split: option.split)
  have save: "saveShareCode [] ''AAAAAAAA'' (share_payload ''1.20.1'' ?t1) = one_code"
    by (simp add: saveShareCode_def one_code_def upper_codes)
  have "freshCode [] all_zeros 8 (generateCode all_zeros 0) = Some (candidate all_zeros 0)"
    by (rule freshCode_free) simp_all
  then have first_file: "POST_file toy_digest ?t1 all_zeros [] ?body =
      Some (Issued ''AAAAAAAA'' False, one_code)"
    using put
    by (simp add: POST_file_def share_body_def requestedCode_def Let_def candidate_all_zeros
        share_payload_def)
  have "issueFresh all_zeros [] (share_payload ''1.20.1'' ?t1) u =
      (Issued (candidate all_zeros 0) u,
       saveShareCode [] (candidate all_zeros 0) (share_payload ''1.20.1'' ?t1))" for u
    by (rule issueFresh_free) (simp_all add: getShareCode_def)
  then have fresh: "issueFresh all_zeros [] (share_payload ''1.20.1'' ?t1) u =
      (Issued ''AAAAAAAA'' u, one_code)" for u
    by (simp add: candidate_all_zeros save)
  have first_db: "POST_db toy_digest ?t1 all_zeros [] ?body = (Issued ''AAAAAAAA'' False, one_code)"
    using fresh [of False]
    by (simp add: POST_db_def share_body_def requestedCode_def Let_def findShareCodeByHash_def
        share_payload_def)
  have first_re: "POST_db_reissue toy_digest ?t1 all_zeros [] ?body =
      (Issued ''AAAAAAAA'' False, one_code)"
    using fresh [of False]
    by (simp add: POST_db_reissue_def share_body_def requestedCode_def Let_def
        findShareCodeByHash_def share_payload_def)
  have c: "POST_file toy_digest ?t2 (zeros_then_ones 1) one_code ?body =
      Some (Issued ''AAAAAAAA'' False, one_code)"
    using t [where store = "[]" and now = ?t1 and rnd = all_zeros and c = "''AAAAAAAA''"
          and u = False and store' = one_code and now' = ?t2 and rnd' = "zeros_then_ones 1",
        THEN conjunct2, THEN conjunct2, THEN conjunct1] first_file by simp
  have d: "POST_db toy_digest ?t2 (zeros_then_ones 1) one_code ?body =
      (Issued ''AAAAAAAA'' False, one_code)"
    using t [where db = "[]" and now = ?t1 and rnd = all_zeros and c = "''AAAAAAAA''"
          and u = False and db' = one_code and now' = ?t2 and rnd' = "zeros_then_ones 1",
        THEN conjunct2, THEN conjunct2, THEN conjunct2, THEN conjunct1] first_db by simp
  have e: "POST_db_reissue toy_digest ?t2 (zeros_then_ones 1) one_code ?body =
      (Issued ''AAAAAAAA'' False, one_code)"
    using t [where db = "[]" and now = ?t1 and rnd = all_zeros and c = "''AAAAAAAA''"
          and u = False and db' = one_code and now' = ?t2 and rnd' = "zeros_then_ones 1",
        THEN conjunct2, THEN conjunct2, THEN conjunct2, THEN conjunct2] first_re by simp
  show ?thesis
    using stored ids a b first_file c first_db d first_re e
    by (simp add: list_ex_iff list_all_iff)
qed

text \<open>
  Claim C9, as amended. Every generated code is eight characters of the alphabet
  \<open>A\<close>-\<open>Z\<close>, \<open>0\<close>-\<open>9\<close>. In the two database handlers a request that must create a code
  takes the first free one among the first 100 codes it generates, and answers with the
  generation error, writing nothing, when these 100 all collide. In the handler of
  \<open>route.ts\<close> the loop has no bound and no error: the request takes the first free code
  however many collide before it, and never answers when all of them collide.
\<close>

theorem fresh_code_generation:
  assumes "body_items body = Some items"
    and "body_targetVersion body = Some target" and "target \<noteq> []"
    and "body_loader body = Some loader" and "loader \<noteq> []"
    and "body_code body = None"
    and "hash = computeHash digest target loader items"
    and "payload = newPayload target loader items hash now"
  shows
    "length (candidate rnd k) = 8 \<and> set (candidate rnd k) \<subseteq> set alphabet \<and>
     ((\<forall>row \<in> set db. contentHash (snd row) \<noteq> hash) \<and>
      (\<forall>i < n. getShareCode db (candidate rnd i) \<noteq> None) \<and>
      getShareCode db (candidate rnd n) = None \<and> n < 100 \<longrightarrow>
        POST_db digest now rnd db body =
          (Issued (candidate rnd n) False, saveShareCode db (candidate rnd n) payload) \<and>
        POST_db_reissue digest now rnd db body =
          (Issued (candidate rnd n) False, saveShareCode db (candidate rnd n) payload)) \<and>
     ((\<forall>row \<in> set db. contentHash (snd row) \<noteq> hash) \<and>
      (\<forall>i < 100. getShareCode db (candidate rnd i) \<noteq> None) \<longrightarrow>
        POST_db digest now rnd db body = (FailedToGenerate, db) \<and>
        POST_db_reissue digest now rnd db body = (FailedToGenerate, db)) \<and>
     ((\<forall>e \<in> set store. contentHash (snd e) \<noteq> hash) \<and>
      (\<forall>i < n. map_of store (candidate rnd i) \<noteq> None) \<and>
      map_of store (candidate rnd n) = None \<longrightarrow>
        POST_file digest now rnd store body =
          Some (Issued (candidate rnd n) False, store_put (candidate rnd n) payload store)) \<and>
     ((\<forall>e \<in> set store. contentHash (snd e) \<noteq> hash) \<and>
      (\<forall>i. map_of store (candidate rnd i) \<noteq> None) \<longrightarrow>
        POST_file digest now rnd store body = None)"
proof -
  note rc = requestedCode_None [OF assms(6)]
  note valid = assms(1-5)
  let ?h = "computeHash digest target loader items"
  let ?payload = "newPayload target loader items ?h now"
  have code: "length (candidate rnd k) = 8 \<and> set (candidate rnd k) \<subseteq> set alphabet"
    using generateCode_is_code [of rnd "8 * k"] by (simp add: candidate_def is_code_def)
  have nofind: "findShareCodeByHash d ?h = None"
    if "\<forall>row \<in> set d. contentHash (snd row) \<noteq> ?h" for d
  proof -
    have "find (\<lambda>row. contentHash (snd row) = ?h) d = None"
      using that by (auto simp: find_None_iff)
    then show ?thesis by (simp add: findShareCodeByHash_def)
  qed
  have db_unfold: "POST_db digest now rnd db body = issueFresh rnd db ?payload False"
    "POST_db_reissue digest now rnd db body = issueFresh rnd db ?payload False"
    if "\<forall>row \<in> set db. contentHash (snd row) \<noteq> ?h"
    using valid rc nofind [OF that]
    by (simp_all add: POST_db_def POST_db_reissue_def Let_def)
  have file_unfold: "POST_file digest now rnd store body =
      (case freshCode store rnd 8 (generateCode rnd 0) of
         None \<Rightarrow> None
       | Some code \<Rightarrow> Some (Issued code False, store_put code ?payload store))"
    if "\<forall>e \<in> set store. contentHash (snd e) \<noteq> ?h"
  proof -
    have "find (\<lambda>e. contentHash (snd e) = ?h) store = None"
      using that by (auto simp: find_None_iff)
    then show ?thesis using valid rc by (simp add: POST_file_def Let_def)
  qed
  have a: "POST_db digest now rnd db body =
          (Issued (candidate rnd n) False, saveShareCode db (candidate rnd n) ?payload) \<and>
        POST_db_reissue digest now rnd db body =
          (Issued (candidate rnd n) False, saveShareCode db (candidate rnd n) ?payload)"
    if "\<forall>row \<in> set db. contentHash (snd row) \<noteq> ?h"
      "\<forall>i < n. getShareCode db (candidate rnd i) \<noteq> None"
      "getShareCode db (candidate rnd n) = None" "n < 100"
    using that by (simp add: db_unfold issueFresh_free)
  have b: "POST_db digest now rnd db body = (FailedToGenerate, db) \<and>
        POST_db_reissue digest now rnd db body = (FailedToGenerate, db)"
    if "\<forall>row \<in> set db. contentHash (snd row) \<noteq> ?h"
      "\<forall>i < 100. getShareCode db (candidate rnd i) \<noteq> None"
    using that by (simp add: db_unfold issueFresh_exhausted)
  have c: "POST_file digest now rnd store body =
          Some (Issued (candidate rnd n) False, store_put (candidate rnd n) ?payload store)"
    if "\<forall>e \<in> set store. contentHash (snd e) \<noteq> ?h"
      "\<forall>i < n. map_of store (candidate rnd i) \<noteq> None"
      "map_of store (candidate rnd n) = None"
    using that by (simp add: file_unfold freshCode_free)
  have d: "POST_file digest now rnd store body = None"
    if "\<forall>e \<in> set store. contentHash (snd e) \<noteq> ?h"
      "\<forall>i. map_of store (candidate rnd i) \<noteq> None"
    using that by (simp add: file_unfold freshCode_never)
  show ?thesis unfolding assms(7,8) using code a b c d by blast
qed

theorem fresh_code_generation_witness:
  "length (candidate (zeros_then_ones 3) 5) = 8 \<and>
   set (candidate (zeros_then_ones 3) 5) \<subseteq> set alphabet \<and>
   POST_db toy_digest ''2026-02-02T00:00:00.000Z'' (zeros_then_ones 3) one_code
       (share_body None ''1.21.1'') =
     (Issued ''BBBBBBBB'' False,
      one_code @ [(''BBBBBBBB'', share_payload ''1.21.1'' ''2026-02-02T00:00:00.000Z'')]) \<and>
   POST_db_reissue toy_digest ''2026-02-02T00:00:00.000Z'' (zeros_then_ones 3) one_code
       (share_body None ''1.21.1'') =
     (Issued ''BBBBBBBB'' False,
      one_code @ [(''BBBBBBBB'', share_payload ''1.21.1'' ''2026-02-02T00:00:00.000Z'')]) \<and>
   POST_db toy_digest ''2026-02-02T00:00:00.000Z'' (zeros_then_ones 100) one_code
       (share_body None ''1.21.1'') = (FailedToGenerate, one_code) \<and>
   POST_db_reissue toy_digest ''2026-02-02T00:00:00.000Z'' (zeros_then_ones 100) one_code
       (share_body None ''1.21.1'') = (FailedToGenerate, one_code) \<and>
   POST_file toy_digest ''2026-02-02T00:00:00.000Z'' (zeros_then_ones 3) one_code
       (share_body None ''1.21.1'') =
     Some (Issued ''BBBBBBBB'' False,
           one_code @ [(''BBBBBBBB'', share_payload ''1.21.1'' ''2026-02-02T00:00:00.000Z'')]) \<and>
   POST_file toy_digest ''2026-02-02T00:00:00.000Z'' all_zeros one_code
       (share_body None ''1.21.1'') = None"
proof -
  let ?now = "''2026-02-02T00:00:00.000Z''"
  let ?new = "share_payload ''1.21.1'' ?now"
  let ?h = "computeHash toy_digest ''1.21.1'' ''fabric'' [sodium_item]"
  have new: "?new = newPayload ''1.21.1'' ''fabric'' [sodium_item] ?h ?now"
    by (simp add: share_payload_def)
  note t = fresh_code_generation [of "share_body None ''1.21.1''" "[sodium_item]" "''1.21.1''"
      "''fabric''" ?h toy_digest ?new ?now, OF share_body_valid(1,2) _ share_body_valid(3) _
      share_body_valid(4) refl new]
  have put: "store_put ''BBBBBBBB'' ?new one_code = one_code @ [(''BBBBBBBB'', ?new)]"
    by (simp add: store_put_def one_code_def array_index_BBBBBBBB)
  have save: "saveShareCode one_code ''BBBBBBBB'' ?new = one_code @ [(''BBBBBBBB'', ?new)]"
    by (simp add: saveShareCode_def one_code_def upper_codes)
  have a: "length (candidate (zeros_then_ones 3) 5) = 8 \<and>
      set (candidate (zeros_then_ones 3) 5) \<subseteq> set alphabet"
    using t [of "zeros_then_ones 3" 5] by simp
  have b: "POST_db toy_digest ?now (zeros_then_ones 3) one_code (share_body None ''1.21.1'') =
        (Issued ''BBBBBBBB'' False, one_code @ [(''BBBBBBBB'', ?new)]) \<and>
      POST_db_reissue toy_digest ?now (zeros_then_ones 3) one_code (share_body None ''1.21.1'') =
        (Issued ''BBBBBBBB'' False, one_code @ [(''BBBBBBBB'', ?new)])"
    using t [of "zeros_then_ones 3" 0 one_code 3, THEN conjunct2, THEN conjunct2, THEN conjunct1]
      one_code_other_hash
    by (simp add: candidate_zeros_then_ones one_code_rows save)
  have c: "POST_db toy_digest ?now (zeros_then_ones 100) one_code (share_body None ''1.21.1'') =
        (FailedToGenerate, one_code) \<and>
      POST_db_reissue toy_digest ?now (zeros_then_ones 100) one_code (share_body None ''1.21.1'') =
        (FailedToGenerate, one_code)"
    using t [of "zeros_then_ones 100" 0 one_code 0, THEN conjunct2, THEN conjunct2, THEN conjunct2,
        THEN conjunct1] one_code_other_hash
    by (simp add: candidate_zeros_then_ones one_code_rows)
  have d: "POST_file toy_digest ?now (zeros_then_ones 3) one_code (share_body None ''1.21.1'') =
        Some (Issued ''BBBBBBBB'' False, one_code @ [(''BBBBBBBB'', ?new)])"
    using t [of "zeros_then_ones 3" 0 one_code 3 one_code, THEN conjunct2, THEN conjunct2,
        THEN conjunct2, THEN conjunct2, THEN conjunct1] one_code_other_hash
    by (simp add: candidate_zeros_then_ones one_code_rows put)
  have e: "POST_file toy_digest ?now all_zeros one_code (share_body None ''1.21.1'') = None"
    using t [of all_zeros 0 one_code 0 one_code, THEN conjunct2, THEN conjunct2, THEN conjunct2,
        THEN conjunct2, THEN conjunct2] one_code_other_hash
    by (simp add: candidate_all_zeros one_code_rows)
  show ?thesis using a b c d e by simp
qed

text \<open>
  The claim as stated fails on the handler of \<open>route.ts\<close>: the first code and 100 more all
  collide, and the request is answered with the 102nd code, not with an error.
\<close>

theorem unbounded_retry_counterexample:
  "list_all (\<lambda>i. map_of one_code (candidate (zeros_then_ones 101) i) \<noteq> None) [0..<101] \<and>
   POST_file toy_digest ''2026-02-02T00:00:00.000Z'' (zeros_then_ones 101) one_code
       (share_body None ''1.21.1'') =
     Some (Issued ''BBBBBBBB'' False,
           one_code @ [(''BBBBBBBB'', share_payload ''1.21.1'' ''2026-02-02T00:00:00.000Z'')])"
proof -
  let ?now = "''2026-02-02T00:00:00.000Z''"
  let ?new = "share_payload ''1.21.1'' ?now"
  let ?rnd = "zeros_then_ones 101"
  have collide: "\<forall>i < 101. map_of one_code (candidate ?rnd i) \<noteq> None"
    by (simp add: candidate_zeros_then_ones one_code_rows)
  have free: "map_of one_code (candidate ?rnd 101) = None"
    by (simp add: candidate_zeros_then_ones one_code_rows)
  have "freshCode one_code ?rnd 8 (generateCode ?rnd 0) = Some (candidate ?rnd 101)"
    using collide free by (rule freshCode_free)
  then have fresh: "freshCode one_code ?rnd 8 (generateCode ?rnd 0) = Some ''BBBBBBBB''"
    by (simp add: candidate_zeros_then_ones)
  have nofind: "find (\<lambda>e. contentHash (snd e) =
      computeHash toy_digest ''1.21.1'' ''fabric'' [sodium_item]) one_code = None"
    using one_code_other_hash by (auto simp: find_None_iff)
  have put: "store_put ''BBBBBBBB'' ?new one_code = one_code @ [(''BBBBBBBB'', ?new)]"
    by (simp add: store_put_def one_code_def array_index_BBBBBBBB)
  have "POST_file toy_digest ?now ?rnd one_code (share_body None ''1.21.1'') =
      Some (Issued ''BBBBBBBB'' False, one_code @ [(''BBBBBBBB'', ?new)])"
    using fresh nofind put
    by (simp add: POST_file_def share_body_def requestedCode_def Let_def share_payload_def)
  moreover have "list_all (\<lambda>i. map_of one_code (candidate ?rnd i) \<noteq> None) [0..<101]"
    using collide by (simp add: list_all_iff)
  ultimately show ?thesis by simp
qed

end
